theory Spec2Isabelle
  imports Main "HOL-Library.AList" "HOL-Library.Sublist"
begin

section \<open>The updater and its extractor\<close>

text \<open>
  An embedding of \<^verbatim>\<open>src/tar.ts\<close> (the extractor) and of the updater (\<^verbatim>\<open>Updater\<close> and the
  functions of its module). Every asynchronous function is a function from a state to a
  result and a state; a rejection is the left summand of the result.

  What the code calls but does not define is the environment: the file system, the clock,
  \<^verbatim>\<open>Math.random\<close>, the network, the hooks of the host and \<^verbatim>\<open>Config.load\<close>. It is read as
  follows. The file system is a tree; a time is set where a node is written and by
  \<^verbatim>\<open>utimes\<close>; any call into it may also fail for a reason that the tree does not show.
  The clock is read in a time zone, which the environment gives. A hook and
  \<^verbatim>\<open>Config.load\<close> leave the tree alone. An answer of the network has the type that the
  source declares for it. The archive ends in the \<^verbatim>\<open>finish\<close> of the \<^verbatim>\<open>tar-fs\<close> writer,
  in an error event of that writer, or in an error event of the source stream, which
  \<^verbatim>\<open>pipe\<close> does not forward to the writer. The colours of \<^verbatim>\<open>chalk\<close> and the progress
  shown by the spinner are left out.
\<close>

section \<open>Errors, events and the file tree\<close>

text \<open>
  A rejected promise or a thrown exception is a value: \<open>Error msg\<close> is
  \<^verbatim>\<open>new Error(msg)\<close>, \<open>ErrnoError code\<close> is a failure of a \<^verbatim>\<open>node:fs\<close> call with
  that \<^verbatim>\<open>code\<close> (the only field \<^verbatim>\<open>ensureClientDir\<close> reads).

  \<open>Unsettled e\<close> is no rejection. It is the result of a promise that is never settled:
  \<open>e\<close> was thrown where no handler of the program is on the stack (inside a callback of a
  stream), or is an error event that nothing listens to. No \<^verbatim>\<open>catch\<close> clause sees it and
  nothing that waits for the promise runs.
\<close>

datatype error = Error string | ErrnoError string | Unsettled error

fun settled :: "error \<Rightarrow> bool" where
  "settled (Unsettled _) = False"
| "settled _ = True"

text \<open>
  The file system is a tree. Times are milliseconds since the epoch. A symbolic link
  holds the path it points to.
\<close>

datatype node = File int string | Symlink int string | Dir int "(string \<times> node) list"

fun mtime_of :: "node \<Rightarrow> int" where
  "mtime_of (File t _) = t"
| "mtime_of (Symlink t _) = t"
| "mtime_of (Dir t _) = t"

fun set_mtime :: "int \<Rightarrow> node \<Rightarrow> node" where
  "set_mtime t (File _ c) = File t c"
| "set_mtime t (Symlink _ l) = Symlink t l"
| "set_mtime t (Dir _ es) = Dir t es"

text \<open>The calls into \<^verbatim>\<open>node:fs\<close>, as they appear in the trace of a run.\<close>

datatype fsop =
    Stat string
  | ReadFile string
  | Readdir string
  | Mkdir string
  | WriteFile string string
  | SymlinkTo string string
  | Utimes string
  | Cp string string
  | Rm string
  | Rename string string
  | Untar string

datatype event =
    FsCall fsop
  | Debug string
  | DebugError error
  | EmitWarning error
  | ConsoleLog string
  | UxLog string
  | UxDebug string
  | UxWarn error
  | UxWarnText string
  | ActionStart string
  | ActionStop string
  | HttpGet string
  | HttpStream string
  | RunHook string string string
  | ConfigLoad string
  | Wait int

subsection \<open>Paths\<close>

fun split_on :: "char \<Rightarrow> string \<Rightarrow> string list" where
  "split_on d [] = [[]]"
| "split_on d (c # cs) =
     (if c = d then [] # split_on d cs
      else (case split_on d cs of [] \<Rightarrow> [[c]] | x # xs \<Rightarrow> (c # x) # xs))"

text \<open>
  The location a path string names: its segments, with empty segments and \<^verbatim>\<open>.\<close> dropped
  and \<^verbatim>\<open>..\<close> resolved; every path is read from the root of the tree.
\<close>

definition step_segment :: "string list \<Rightarrow> string \<Rightarrow> string list" where
  "step_segment acc c =
     (if c = [] \<or> c = ''.'' then acc else if c = ''..'' then butlast acc else acc @ [c])"

definition components :: "string \<Rightarrow> string list" where
  "components p = foldl step_segment [] (split_on CHR ''/'' p)"

fun join_with :: "string \<Rightarrow> string list \<Rightarrow> string" where
  "join_with sep [] = []"
| "join_with sep [x] = x"
| "join_with sep (x # y # ys) = x @ sep @ join_with sep (y # ys)"

text \<open>
  \<^verbatim>\<open>path.normalize\<close> of POSIX: empty segments and \<^verbatim>\<open>.\<close> go, \<^verbatim>\<open>..\<close> takes the segment
  before it away (and stays where a relative path has none), a leading and a trailing
  slash are kept.
\<close>

definition norm_segment :: "bool \<Rightarrow> string list \<Rightarrow> string \<Rightarrow> string list" where
  "norm_segment isAbsolute acc c =
     (if c = [] \<or> c = ''.'' then acc
      else if c = ''..'' then
        (if acc \<noteq> [] \<and> last acc \<noteq> ''..'' then butlast acc
         else if isAbsolute then acc else acc @ [''..''])
      else acc @ [c])"

definition normalize :: "string \<Rightarrow> string" where
  "normalize p =
     (if p = [] then ''.''
      else
        (let isAbsolute = (hd p = CHR ''/'');
             trailingSeparator = (last p = CHR ''/'');
             body = join_with ''/'' (foldl (norm_segment isAbsolute) [] (split_on CHR ''/'' p))
         in if body = [] then (if isAbsolute then ''/'' else if trailingSeparator then ''./'' else ''.'')
            else (if isAbsolute then ''/'' else []) @ body
                 @ (if trailingSeparator then ''/'' else [])))"

text \<open>
  \<^verbatim>\<open>path.join\<close> of two segments: the segments that are not empty, with a slash between
  them, normalised. The join of three segments is the join of the first two with the
  third.
\<close>

definition join :: "string \<Rightarrow> string \<Rightarrow> string" where
  "join a b =
     (if a = [] \<and> b = [] then ''.''
      else normalize (if b = [] then a else if a = [] then b else a @ ''/'' @ b))"

definition basename :: "string \<Rightarrow> string" where
  "basename p =
     (let q = dropWhile (\<lambda>c. c = CHR ''/'') (rev p)
      in rev (takeWhile (\<lambda>c. c \<noteq> CHR ''/'') q))"

definition dirname :: "string \<Rightarrow> string" where
  "dirname p =
     (let q = dropWhile (\<lambda>c. c = CHR ''/'') (rev p);
          r = dropWhile (\<lambda>c. c = CHR ''/'') (dropWhile (\<lambda>c. c \<noteq> CHR ''/'') q)
      in if r = [] then (if CHR ''/'' \<in> set q \<or> (q = [] \<and> p \<noteq> []) then ''/'' else ''.'')
         else rev r)"

text \<open>Two locations neither of which lies inside the other.\<close>

definition separate :: "string list \<Rightarrow> string list \<Rightarrow> bool" where
  "separate p q = (\<not> prefix p q \<and> \<not> prefix q p)"

subsection \<open>Operations on the tree\<close>

primrec lookup :: "string list \<Rightarrow> node \<Rightarrow> node option" where
  "lookup [] n = Some n"
| "lookup (c # cs) n =
     (case n of
        Dir t es \<Rightarrow> (case map_of es c of None \<Rightarrow> None | Some ch \<Rightarrow> lookup cs ch)
      | _ \<Rightarrow> None)"

text \<open>\<open>store p new n\<close> puts \<open>new\<close> at \<open>p\<close>; the parent of \<open>p\<close> has to be a directory.\<close>

primrec store :: "string list \<Rightarrow> node \<Rightarrow> node \<Rightarrow> node option" where
  "store [] new n = Some new"
| "store (c # cs) new n =
     (case n of
        Dir t es \<Rightarrow>
          (if cs = [] then Some (Dir t (AList.update c new es))
           else (case map_of es c of
                   None \<Rightarrow> None
                 | Some ch \<Rightarrow>
                     (case store cs new ch of
                        None \<Rightarrow> None
                      | Some ch' \<Rightarrow> Some (Dir t (AList.update c ch' es)))))
      | _ \<Rightarrow> None)"

text \<open>\<open>remove p n\<close> deletes the subtree at \<open>p\<close>, if there is one.\<close>

primrec remove :: "string list \<Rightarrow> node \<Rightarrow> node" where
  "remove [] n = n"
| "remove (c # cs) n =
     (case n of
        Dir t es \<Rightarrow>
          (if cs = [] then Dir t (AList.delete c es)
           else (case map_of es c of
                   None \<Rightarrow> n
                 | Some ch \<Rightarrow> Dir t (AList.update c (remove cs ch) es)))
      | _ \<Rightarrow> n)"

text \<open>\<^verbatim>\<open>mkdir(p, {recursive: true})\<close>: the directories along \<open>p\<close> that are missing are made.\<close>

primrec mkdirp :: "int \<Rightarrow> string list \<Rightarrow> node \<Rightarrow> error + node" where
  "mkdirp now [] n = (case n of Dir t es \<Rightarrow> Inr n | _ \<Rightarrow> Inl (ErrnoError ''EEXIST''))"
| "mkdirp now (c # cs) n =
     (case n of
        Dir t es \<Rightarrow>
          (case mkdirp now cs (case map_of es c of None \<Rightarrow> Dir now [] | Some ch \<Rightarrow> ch) of
             Inl e \<Rightarrow> Inl e
           | Inr ch' \<Rightarrow> Inr (Dir t (AList.update c ch' es)))
      | _ \<Rightarrow> Inl (ErrnoError ''ENOTDIR''))"

text \<open>
  What a path that may end in a symbolic link names: the link is followed, from the
  directory it lies in, up to forty times. The result is the place arrived at and the
  node there. The directories on the way to the last segment are not links in the trees
  the updater makes, and are not followed.
\<close>

definition link_path :: "string list \<Rightarrow> string \<Rightarrow> string list" where
  "link_path p target =
     foldl step_segment (if take 1 target = ''/'' then [] else butlast p)
       (split_on CHR ''/'' target)"

fun follow :: "nat \<Rightarrow> string list \<Rightarrow> node \<Rightarrow> error + (string list \<times> node)" where
  "follow 0 p r = Inl (ErrnoError ''ELOOP'')"
| "follow (Suc k) p r =
     (case lookup p r of
        None \<Rightarrow> Inl (ErrnoError ''ENOENT'')
      | Some (Symlink t target) \<Rightarrow> follow k (link_path p target) r
      | Some n \<Rightarrow> Inr (p, n))"

definition resolve :: "string \<Rightarrow> node \<Rightarrow> error + (string list \<times> node)" where
  "resolve p r = follow 40 (components p) r"

section \<open>The state of a run\<close>

text \<open>
  What the updater reads of the \<^verbatim>\<open>Config\<close> object of \<^verbatim>\<open>@oclif/core\<close>.
\<close>

record config =
  name :: string
  version :: string
  bin :: string
  windows :: bool
  dataDir :: string
  cacheDir :: string
  binPath :: "string option"
  npmRegistry :: "string option"
  pjson_name :: string
  scopedEnvVar :: "string \<Rightarrow> string option"
  scopedEnvVarKey :: "string \<Rightarrow> string"

text \<open>
  \<open>root\<close> is the file system and \<open>clock\<close> what \<^verbatim>\<open>new Date()\<close> reads. \<open>faults\<close> is the
  environment's choice, for each call into \<^verbatim>\<open>node:fs\<close> in turn, of making it fail for a
  reason the tree does not show (permissions, a busy file, a full disk); \<open>calls\<close> counts
  those calls. \<open>rand\<close> gives, for each draw of \<^verbatim>\<open>Math.random()\<close> in turn, what
  \<^verbatim>\<open>Math.random().toString().split('.')[1]\<close> is (\<open>None\<close>: the decimal string has no
  point, and \<^verbatim>\<open>.slice\<close> on \<^verbatim>\<open>undefined\<close> throws). \<open>trace\<close> records what the run did to
  its environment, in order. \<open>config\<close> is the updater's \<^verbatim>\<open>this.config\<close>, which
  \<^verbatim>\<open>refreshConfig\<close> replaces. \<open>localTZA\<close> is the time zone of the process, as the
  operation \<^verbatim>\<open>LocalTZA(t, isUTC)\<close> of ECMAScript: \<open>localTZA t True\<close> is the offset of local
  time from UTC at the instant \<open>t\<close>, \<open>localTZA t False\<close> the offset that the local time
  \<open>t\<close> is read with.
\<close>

record state =
  root :: node
  clock :: int
  faults :: "nat \<Rightarrow> error option"
  calls :: nat
  rand :: "nat \<Rightarrow> string option"
  draws :: nat
  trace :: "event list"
  config :: config
  localTZA :: "int \<Rightarrow> bool \<Rightarrow> int"

type_synonym 'a io = "state \<Rightarrow> (error + 'a) \<times> state"

definition ret :: "'a \<Rightarrow> 'a io" where
  "ret x w = (Inr x, w)"

definition throw :: "error \<Rightarrow> 'a io" where
  "throw e w = (Inl e, w)"

text \<open>\<open>bindE m f\<close> is \<^verbatim>\<open>const x = await m; f(x)\<close>: a rejection of \<open>m\<close> ends the sequence.\<close>

definition bindE :: "'a io \<Rightarrow> ('a \<Rightarrow> 'b io) \<Rightarrow> 'b io" where
  "bindE m f w = (case m w of (Inl e, w') \<Rightarrow> (Inl e, w') | (Inr x, w') \<Rightarrow> f x w')"

text \<open>
  \<open>catchE m h\<close> is \<^verbatim>\<open>try { await m } catch (e) { h(e) }\<close> and \<^verbatim>\<open>m.catch(h)\<close>: the handler
  runs on a rejection, and never when \<open>m\<close> is not settled.
\<close>

definition catchE :: "'a io \<Rightarrow> (error \<Rightarrow> 'a io) \<Rightarrow> 'a io" where
  "catchE m h w =
     (case m w of
        (Inl e, w') \<Rightarrow> if settled e then h e w' else (Inl e, w')
      | (Inr x, w') \<Rightarrow> (Inr x, w'))"

definition emit :: "event \<Rightarrow> unit io" where
  "emit ev w = (Inr (), w\<lparr>trace := trace w @ [ev]\<rparr>)"

definition now :: "int io" where
  "now w = (Inr (clock w), w)"

text \<open>
  Every call into \<^verbatim>\<open>node:fs\<close> but \<^verbatim>\<open>existsSync\<close> goes through \<open>sys\<close>: the call is
  recorded, and the environment may fail it. \<^verbatim>\<open>existsSync\<close>, \<^verbatim>\<open>stat\<close>, \<^verbatim>\<open>readFile\<close>
  and \<^verbatim>\<open>utimes\<close> follow a link that the path ends in; the other calls act on the node at
  the path.
\<close>

definition sys :: "fsop \<Rightarrow> unit io" where
  "sys op w =
     (let w' = w\<lparr>calls := calls w + 1, trace := trace w @ [FsCall op]\<rparr>
      in case faults w (calls w) of Some e \<Rightarrow> (Inl e, w') | None \<Rightarrow> (Inr (), w'))"

definition existsSync :: "string \<Rightarrow> state \<Rightarrow> bool" where
  "existsSync p w = (case resolve p (root w) of Inl _ \<Rightarrow> False | Inr _ \<Rightarrow> True)"

definition stat :: "string \<Rightarrow> int io" where
  "stat p =
     bindE (sys (Stat p)) (\<lambda>_ w.
       case resolve p (root w) of
         Inl e \<Rightarrow> (Inl e, w)
       | Inr (q, n) \<Rightarrow> (Inr (mtime_of n), w))"

definition readFile :: "string \<Rightarrow> string io" where
  "readFile p =
     bindE (sys (ReadFile p)) (\<lambda>_ w.
       case resolve p (root w) of
         Inl e \<Rightarrow> (Inl e, w)
       | Inr (q, File t c) \<Rightarrow> (Inr c, w)
       | Inr (q, Dir t es) \<Rightarrow> (Inl (ErrnoError ''EISDIR''), w)
       | Inr (q, Symlink t l) \<Rightarrow> (Inl (ErrnoError ''ELOOP''), w))"

definition readdir :: "string \<Rightarrow> string list io" where
  "readdir p =
     bindE (sys (Readdir p)) (\<lambda>_ w.
       case lookup (components p) (root w) of
         Some (Dir t es) \<Rightarrow> (Inr (map fst es), w)
       | Some _ \<Rightarrow> (Inl (ErrnoError ''ENOTDIR''), w)
       | None \<Rightarrow> (Inl (ErrnoError ''ENOENT''), w))"

definition mkdir :: "string \<Rightarrow> unit io" where
  "mkdir p =
     bindE (sys (Mkdir p)) (\<lambda>_ w.
       case mkdirp (clock w) (components p) (root w) of
         Inl e \<Rightarrow> (Inl e, w)
       | Inr r \<Rightarrow> (Inr (), w\<lparr>root := r\<rparr>))"

definition writeFile :: "string \<Rightarrow> string \<Rightarrow> unit io" where
  "writeFile p body =
     bindE (sys (WriteFile p body)) (\<lambda>_ w.
       case lookup (components p) (root w) of
         Some (Dir t es) \<Rightarrow> (Inl (ErrnoError ''EISDIR''), w)
       | _ \<Rightarrow>
         (case store (components p) (File (clock w) body) (root w) of
            None \<Rightarrow> (Inl (ErrnoError ''ENOENT''), w)
          | Some r \<Rightarrow> (Inr (), w\<lparr>root := r\<rparr>)))"

definition symlink :: "string \<Rightarrow> string \<Rightarrow> unit io" where
  "symlink target p =
     bindE (sys (SymlinkTo target p)) (\<lambda>_ w.
       case lookup (components p) (root w) of
         Some _ \<Rightarrow> (Inl (ErrnoError ''EEXIST''), w)
       | None \<Rightarrow>
         (case store (components p) (Symlink (clock w) target) (root w) of
            None \<Rightarrow> (Inl (ErrnoError ''ENOENT''), w)
          | Some r \<Rightarrow> (Inr (), w\<lparr>root := r\<rparr>)))"

definition utimes :: "string \<Rightarrow> int \<Rightarrow> unit io" where
  "utimes p t =
     bindE (sys (Utimes p)) (\<lambda>_ w.
       case resolve p (root w) of
         Inl e \<Rightarrow> (Inl e, w)
       | Inr (q, n) \<Rightarrow>
         (case store q (set_mtime t n) (root w) of
            None \<Rightarrow> (Inl (ErrnoError ''ENOENT''), w)
          | Some r \<Rightarrow> (Inr (), w\<lparr>root := r\<rparr>)))"

text \<open>\<^verbatim>\<open>rm(p, {force: true, recursive: true})\<close>: a missing path is no error.\<close>

definition rm :: "string \<Rightarrow> unit io" where
  "rm p =
     bindE (sys (Rm p)) (\<lambda>_ w. (Inr (), w\<lparr>root := remove (components p) (root w)\<rparr>))"

text \<open>
  \<^verbatim>\<open>cp(src, dst)\<close> without \<^verbatim>\<open>recursive\<close>: a directory is refused, a file or a link is
  copied.
\<close>

definition cp :: "string \<Rightarrow> string \<Rightarrow> unit io" where
  "cp src dst =
     bindE (sys (Cp src dst)) (\<lambda>_ w.
       case lookup (components src) (root w) of
         None \<Rightarrow> (Inl (ErrnoError ''ENOENT''), w)
       | Some (Dir t es) \<Rightarrow> (Inl (ErrnoError ''ERR_FS_EISDIR''), w)
       | Some n \<Rightarrow>
         (case lookup (components dst) (root w) of
            Some (Dir t es) \<Rightarrow> (Inl (ErrnoError ''ERR_FS_CP_NON_DIR_TO_DIR''), w)
          | _ \<Rightarrow>
            (case store (components dst) (set_mtime (clock w) n) (root w) of
               None \<Rightarrow> (Inl (ErrnoError ''ENOENT''), w)
             | Some r \<Rightarrow> (Inr (), w\<lparr>root := r\<rparr>))))"

text \<open>
  \<^verbatim>\<open>rename(from, to)\<close> as POSIX has it: the source has to exist, a directory replaces
  only an empty directory, a file never a directory, and nothing moves into itself.
\<close>

definition rename_tree :: "string list \<Rightarrow> string list \<Rightarrow> node \<Rightarrow> error + node" where
  "rename_tree a b r =
     (case lookup a r of
        None \<Rightarrow> Inl (ErrnoError ''ENOENT'')
      | Some n \<Rightarrow>
        if a = b then Inr r
        else if prefix a b then Inl (ErrnoError ''EINVAL'')
        else
          (case (n, lookup b r) of
             (Dir t es, Some (Dir t' (x # xs))) \<Rightarrow> Inl (ErrnoError ''ENOTEMPTY'')
           | (Dir t es, Some (File t' c)) \<Rightarrow> Inl (ErrnoError ''ENOTDIR'')
           | (Dir t es, Some (Symlink t' l)) \<Rightarrow> Inl (ErrnoError ''ENOTDIR'')
           | (File t c, Some (Dir t' es')) \<Rightarrow> Inl (ErrnoError ''EISDIR'')
           | (Symlink t l, Some (Dir t' es')) \<Rightarrow> Inl (ErrnoError ''EISDIR'')
           | _ \<Rightarrow>
             (case store b n (remove a r) of
                None \<Rightarrow> Inl (ErrnoError ''ENOENT'')
              | Some r' \<Rightarrow> Inr r')))"

definition rename :: "string \<Rightarrow> string \<Rightarrow> unit io" where
  "rename a b =
     bindE (sys (Rename a b)) (\<lambda>_ w.
       case rename_tree (components a) (components b) (root w) of
         Inl e \<Rightarrow> (Inl e, w)
       | Inr r \<Rightarrow> (Inr (), w\<lparr>root := r\<rparr>))"

section \<open>The extractor (\<^verbatim>\<open>src/tar.ts\<close>)\<close>

text \<open>
  A header of \<^verbatim>\<open>tar-stream\<close>: the entry's name, its \<^verbatim>\<open>type\<close> (a string, or missing), and
  what the entry holds.
\<close>

record header =
  hname :: string
  htype :: "string option"
  hbody :: string
  hlinkname :: string

text \<open>
  What the archive stream delivers to the \<^verbatim>\<open>tar-fs\<close> writer: entries in order, and then
  the end (\<^verbatim>\<open>finish\<close>), an \<^verbatim>\<open>error\<close> event of the writer (a damaged archive), or an
  \<^verbatim>\<open>error\<close> event of the stream itself (the connection breaks).
\<close>

datatype ending = Finish | WriterError error | SourceError error

record archive =
  entries :: "header list"
  ending :: ending

text \<open>
  The filter handed to \<^verbatim>\<open>tar-fs\<close>: \<open>Inr True\<close> leaves the entry out, \<open>Inr False\<close> lets it
  through, \<open>Inl\<close> is the \<^verbatim>\<open>throw\<close> of the default case, whose message is the type
  (\<^verbatim>\<open>new Error(undefined)\<close> has the empty message). The \<^verbatim>\<open>debug\<close> line under
  \<^verbatim>\<open>OCLIF_DEBUG_UPDATE_FILES\<close> only prints.
\<close>

definition ignore :: "string \<Rightarrow> header option \<Rightarrow> error + bool" where
  "ignore nm hdr =
     (case hdr of
        None \<Rightarrow> Inl (Error [])
      | Some h \<Rightarrow>
        (case htype h of
           None \<Rightarrow> Inl (Error [])
         | Some t \<Rightarrow>
           if t = ''directory'' \<or> t = ''file'' then Inr False
           else if t = ''symlink'' then Inr True
           else Inl (Error t)))"

text \<open>
  \<^verbatim>\<open>tar-fs\<close> writing one entry that the filter let through: a directory is made, a file
  or a link is written under its parent directories, any other type is refused.
\<close>

definition entry_node :: "int \<Rightarrow> header \<Rightarrow> node" where
  "entry_node t h =
     (if htype h = Some ''file'' then File t (hbody h) else Symlink t (hlinkname h))"

definition materialise :: "string list \<Rightarrow> header \<Rightarrow> unit io" where
  "materialise p h =
     bindE (sys (Untar (hname h))) (\<lambda>_ w.
       if htype h = Some ''directory'' then
         (case mkdirp (clock w) p (root w) of
            Inl e \<Rightarrow> (Inl e, w)
          | Inr r \<Rightarrow> (Inr (), w\<lparr>root := r\<rparr>))
       else if htype h = Some ''file'' \<or> htype h = Some ''symlink'' then
         (case mkdirp (clock w) (butlast p) (root w) of
            Inl e \<Rightarrow> (Inl e, w)
          | Inr r \<Rightarrow>
            (case lookup p r of
               Some (Dir t es) \<Rightarrow> (Inl (ErrnoError ''EISDIR''), w)
             | _ \<Rightarrow>
               (case store p (entry_node (clock w) h) r of
                  None \<Rightarrow> (Inl (ErrnoError ''ENOENT''), w)
                | Some r' \<Rightarrow> (Inr (), w\<lparr>root := r'\<rparr>))))
       else (Inl (Error (''Unsupported type for '' @ hname h)), w))"

text \<open>
  The writer takes the entries in order and asks the filter about each, in its handler
  of the \<^verbatim>\<open>entry\<close> event. Nothing catches what the filter throws there: the exception
  leaves the handler, the writer emits neither \<^verbatim>\<open>error\<close> nor \<^verbatim>\<open>finish\<close>, and the
  promise that \<^verbatim>\<open>extract\<close> awaits is never settled. An entry's name is resolved below
  the target directory \<open>cwd\<close> (\<^verbatim>\<open>path.join(cwd, path.join('/', name))\<close>).
\<close>

fun unpack :: "(string \<Rightarrow> header option \<Rightarrow> error + bool) \<Rightarrow> string \<Rightarrow> header list \<Rightarrow> unit io" where
  "unpack ign cwd [] = ret ()"
| "unpack ign cwd (h # hs) =
     (case ign (join cwd (hname h)) (Some h) of
        Inl e \<Rightarrow> throw (Unsettled e)
      | Inr True \<Rightarrow> unpack ign cwd hs
      | Inr False \<Rightarrow>
          bindE (materialise (components cwd @ components (hname h)) h)
            (\<lambda>_. unpack ign cwd hs))"

text \<open>
  The promise of lines 34 to 46: \<^verbatim>\<open>finish\<close> resolves it and an \<^verbatim>\<open>error\<close> of the writer
  rejects it. \<^verbatim>\<open>stream.pipe(extract)\<close> hands the data on and not the errors, and nothing
  else listens to the stream: after an \<^verbatim>\<open>error\<close> of the stream the writer gets no end,
  and the promise is never settled.
\<close>

definition tarExtract :: "string \<Rightarrow> (string \<Rightarrow> header option \<Rightarrow> error + bool) \<Rightarrow> archive \<Rightarrow> unit io" where
  "tarExtract cwd ign stream =
     bindE (unpack ign cwd (entries stream)) (\<lambda>_.
       case ending stream of
         Finish \<Rightarrow> ret ()
       | WriterError e \<Rightarrow> throw e
       | SourceError e \<Rightarrow> throw (Unsettled e))"

subsection \<open>\<^verbatim>\<open>util.js\<close>\<close>

text \<open>
  Modelled from the spec: \<^verbatim>\<open>util.js\<close> (\<^verbatim>\<open>touch\<close>, \<^verbatim>\<open>wait\<close>, \<^verbatim>\<open>ls\<close>) is not among the
  sources. \<^verbatim>\<open>touch\<close> is what the spec says of the commit: "the destination's modification
  time is refreshed".
\<close>

definition touch :: "string \<Rightarrow> unit io" where
  "touch p = bindE now (\<lambda>t. utimes p t)"

text \<open>
  Modelled from the spec: \<^verbatim>\<open>wait\<close> of \<^verbatim>\<open>util.js\<close> is the sleep of the debounce gate,
  "each iteration truly suspends for the interval": the clock has moved on by \<open>ms\<close> when
  it returns.
\<close>

definition wait :: "int \<Rightarrow> unit io" where
  "wait ms w = (Inr (), w\<lparr>clock := clock w + ms, trace := trace w @ [Wait ms]\<rparr>)"

text \<open>
  Modelled from the spec: \<^verbatim>\<open>ls\<close> of \<^verbatim>\<open>util.js\<close> is the store's listing of a directory;
  \<^verbatim>\<open>tidy\<close> reads of each entry its \<^verbatim>\<open>path\<close> and the \<^verbatim>\<open>mtime\<close> of its \<^verbatim>\<open>stat\<close>.
\<close>

record dirent =
  path :: string
  stat_mtime :: int

fun stat_all :: "string \<Rightarrow> string list \<Rightarrow> dirent list io" where
  "stat_all dir [] = ret []"
| "stat_all dir (f # fs) =
     bindE (stat (join dir f)) (\<lambda>t.
     bindE (stat_all dir fs) (\<lambda>rest.
     ret (\<lparr>path = join dir f, stat_mtime = t\<rparr> # rest)))"

definition ls :: "string \<Rightarrow> dirent list io" where
  "ls dir = bindE (readdir dir) (\<lambda>files. stat_all dir files)"

subsection \<open>\<^verbatim>\<open>extract\<close>\<close>

definition getTmp :: "string \<Rightarrow> string io" where
  "getTmp output w =
     (case rand w (draws w) of
        None \<Rightarrow> (Inl (Error ''Cannot read properties of undefined''), w\<lparr>draws := draws w + 1\<rparr>)
      | Some digits \<Rightarrow>
          (Inr (output @ ''.partial.'' @ take 5 digits), w\<lparr>draws := draws w + 1\<rparr>))"

text \<open>
  The \<^verbatim>\<open>const tmp\<close> of the inner \<^verbatim>\<open>try\<close> block is \<open>tmp'\<close>; it is out of scope in the
  \<^verbatim>\<open>catch\<close> clause of that block, where \<^verbatim>\<open>tmp\<close> is the staging directory again.
  The function is \<^verbatim>\<open>Extractor.extract\<close>, named so here (its bare name is a keyword of
  Isabelle).
\<close>

text \<open>Lines 29 to 31: the staging name, drawn again once when the first one is taken.\<close>

definition choose_tmp :: "string \<Rightarrow> string io" where
  "choose_tmp output =
     bindE (getTmp output) (\<lambda>tmp0 w.
       if existsSync tmp0 w then getTmp output w else ret tmp0 w)"

text \<open>Lines 48 to 57: what is done about a destination that exists.\<close>

definition backup_existing :: "string \<Rightarrow> string \<Rightarrow> unit io" where
  "backup_existing tmp output w =
     (if existsSync output w
      then catchE
             (bindE (getTmp output) (\<lambda>tmp'.
              bindE (cp output tmp') (\<lambda>_.
              catchE (rm tmp') (\<lambda>e. emit (DebugError e)))))
             (\<lambda>error.
              bindE (emit (DebugError error)) (\<lambda>_.
              catchE (rm tmp) (\<lambda>e. emit (DebugError e))))
             w
      else ret () w)"

text \<open>Lines 48 to 65: the commit, which runs once the archive is unpacked.\<close>

definition commit :: "string \<Rightarrow> string \<Rightarrow> string \<Rightarrow> unit io" where
  "commit tmp base output =
     bindE (backup_existing tmp output) (\<lambda>_.
     bindE (emit (Debug (''moving '' @ join tmp base @ '' to '' @ output))) (\<lambda>_.
     bindE (rename (join tmp base) output) (\<lambda>_.
     bindE (catchE (rm tmp) (\<lambda>e. emit (DebugError e))) (\<lambda>_.
     bindE (touch output) (\<lambda>_.
     emit (Debug ''done extracting''))))))"

definition Extractor_extract :: "archive \<Rightarrow> string \<Rightarrow> string \<Rightarrow> unit io" where
  "Extractor_extract stream base output =
     bindE (choose_tmp output) (\<lambda>tmp.
     bindE (emit (Debug (''extracting to '' @ tmp))) (\<lambda>_.
     catchE
       (bindE (tarExtract tmp ignore stream) (\<lambda>_.
        commit tmp base output))
       (\<lambda>error.
        bindE (catchE (rm tmp) (\<lambda>e. emit (EmitWarning e))) (\<lambda>_.
        throw error))))"

section \<open>The updater\<close>

subsection \<open>Strings, dates and objects of JavaScript\<close>

text \<open>A value used as a condition: \<^verbatim>\<open>undefined\<close> and the empty string are false.\<close>

definition truthy :: "string option \<Rightarrow> bool" where
  "truthy x = (case x of None \<Rightarrow> False | Some s \<Rightarrow> s \<noteq> [])"

fun str_includes :: "string \<Rightarrow> string \<Rightarrow> bool" where
  "str_includes pat [] = (pat = [])"
| "str_includes pat (c # cs) = (prefix pat (c # cs) \<or> str_includes pat cs)"

text \<open>\<^verbatim>\<open>s.replace(pat, rep)\<close> with a string pattern: the first occurrence only.\<close>

fun replace_first :: "string \<Rightarrow> string \<Rightarrow> string \<Rightarrow> string" where
  "replace_first pat rep [] = (if pat = [] then rep else [])"
| "replace_first pat rep (c # cs) =
     (if prefix pat (c # cs) then rep @ drop (length pat) (c # cs)
      else c # replace_first pat rep cs)"

definition is_space :: "char \<Rightarrow> bool" where
  "is_space c = (c \<in> set [CHR 0x09, CHR 0x0A, CHR 0x0B, CHR 0x0C, CHR 0x0D, CHR 0x20, CHR 0xA0])"

definition trim :: "string \<Rightarrow> string" where
  "trim s = rev (dropWhile is_space (rev (dropWhile is_space s)))"

fun dec :: "nat \<Rightarrow> string" where
  "dec n = (if n < 10 then [char_of (48 + n)] else dec (n div 10) @ [char_of (48 + n mod 10)])"

text \<open>
  A date in a message. The source prints \<^verbatim>\<open>toISOString()\<close>; the model prints the count of
  milliseconds.
\<close>

definition show_date :: "int \<Rightarrow> string" where
  "show_date t = (if t < 0 then ''-'' @ dec (nat (- t)) else dec (nat t))"

definition unlines :: "string list \<Rightarrow> string" where
  "unlines xs = concat (map (\<lambda>l. l @ [CHR 0x0A]) xs)"

text \<open>
  \<^verbatim>\<open>d.setHours(d.getHours() + h)\<close> on a date whose time value is \<open>t\<close>: the fields of
  the local time of \<open>t\<close> are taken, \<open>h\<close> hours are added to them, and the local time that
  results is read back as an instant (\<^verbatim>\<open>LocalTime\<close>, \<^verbatim>\<open>MakeTime\<close>, \<^verbatim>\<open>MakeDate\<close> and
  \<^verbatim>\<open>UTC\<close> of ECMAScript). The result is the new time value.
\<close>

definition setHours_plus :: "(int \<Rightarrow> bool \<Rightarrow> int) \<Rightarrow> int \<Rightarrow> int \<Rightarrow> int" where
  "setHours_plus tza t h =
     (let local = t + tza t True + h * 3600000 in local - tza local False)"

text \<open>
  An object made by \<^verbatim>\<open>{}\<close> and assignments \<^verbatim>\<open>acc[k] = v\<close>: its own properties in the
  order they were made, below \<^verbatim>\<open>Object.prototype\<close>. An assignment to \<^verbatim>\<open>__proto__\<close> of
  a string makes no property. Reading \<^verbatim>\<open>obj[k]\<close> finds an own property or else a member of
  the prototype, which is a function or an object and so is true as a condition.
  \<^verbatim>\<open>Object.keys\<close> lists the keys that are array indices first, in numeric order, and
  then the others in the order they were made.
\<close>

definition object_prototype_names :: "string list" where
  "object_prototype_names =
     [''constructor'', ''__defineGetter__'', ''__defineSetter__'', ''hasOwnProperty'',
      ''__lookupGetter__'', ''__lookupSetter__'', ''isPrototypeOf'', ''propertyIsEnumerable'',
      ''toString'', ''valueOf'', ''__proto__'', ''toLocaleString'']"

definition object_set :: "string \<Rightarrow> string \<Rightarrow> (string \<times> string) list \<Rightarrow> (string \<times> string) list" where
  "object_set k v obj = (if k = ''__proto__'' then obj else AList.update k v obj)"

definition member_truthy :: "(string \<times> string) list \<Rightarrow> string \<Rightarrow> bool" where
  "member_truthy obj k =
     (case map_of obj k of Some v \<Rightarrow> v \<noteq> [] | None \<Rightarrow> k \<in> set object_prototype_names)"

definition digits_value :: "string \<Rightarrow> int" where
  "digits_value s = foldl (\<lambda>n c. 10 * n + (of_char c - 48)) 0 s"

definition is_array_index :: "string \<Rightarrow> bool" where
  "is_array_index s =
     (s \<noteq> [] \<and> list_all (\<lambda>c. (48 :: int) \<le> of_char c \<and> of_char c \<le> (57 :: int)) s
      \<and> (s = ''0'' \<or> hd s \<noteq> CHR ''0'') \<and> digits_value s < 4294967295)"

definition object_keys :: "(string \<times> string) list \<Rightarrow> string list" where
  "object_keys obj =
     map (\<lambda>i. dec (nat i)) (sort (map digits_value (filter is_array_index (map fst obj))))
     @ filter (\<lambda>k. \<not> is_array_index k) (map fst obj)"

subsection \<open>The environment of the updater\<close>

text \<open>
  What the network, the hooks of the host and \<^verbatim>\<open>Config.load\<close> answer. The bodies have the
  types the source gives them: the dist-tags of the registry document by URL (an object,
  as the list of its keys and values in key order), the \<^verbatim>\<open>tag_name\<close>s of the releases,
  the \<^verbatim>\<open>version\<close> of the latest document, and the archive that the download streams.
\<close>

record env =
  http_dist_tags :: "string \<Rightarrow> error + (string \<times> string) list"
  http_releases :: "error + string list"
  http_latest :: "error + string"
  http_stream :: "error + archive"
  hook :: "string \<Rightarrow> string \<Rightarrow> string \<Rightarrow> error option"
  load_config :: "string \<Rightarrow> error + config"

record options =
  opt_autoUpdate :: bool
  opt_channel :: "string option"
  opt_force :: "bool option"
  opt_version :: "string option"

text \<open>The two fields the constructor computes once, from the configuration it is given.\<close>

record updater =
  clientBin :: string
  clientRoot :: string

definition Updater :: "config \<Rightarrow> updater" where
  "Updater cfg =
     (let home = (case scopedEnvVar cfg ''OCLIF_CLIENT_HOME'' of
                    Some h \<Rightarrow> h
                  | None \<Rightarrow> join (dataDir cfg) ''client'')
      in \<lparr>clientBin = join (join home ''bin'') (if windows cfg then bin cfg @ ''.cmd'' else bin cfg),
          clientRoot = home\<rparr>)"

definition runHook :: "env \<Rightarrow> string \<Rightarrow> string \<Rightarrow> string \<Rightarrow> unit io" where
  "runHook env ev channel ver =
     bindE (emit (RunHook ev channel ver)) (\<lambda>_.
       case hook env ev channel ver of None \<Rightarrow> ret () | Some e \<Rightarrow> throw e)"

subsection \<open>The functions of the module\<close>

definition alreadyOnVersion :: "string \<Rightarrow> string option \<Rightarrow> bool" where
  "alreadyOnVersion current updated = (Some current = updated)"

definition code_of :: "error \<Rightarrow> string option" where
  "code_of e = (case e of ErrnoError c \<Rightarrow> Some c | _ \<Rightarrow> None)"

definition ensureClientDir :: "string \<Rightarrow> unit io" where
  "ensureClientDir clientRoot' =
     catchE (mkdir clientRoot')
       (\<lambda>error.
          if code_of error = Some ''EEXIST'' then
            bindE (rm clientRoot') (\<lambda>_. mkdir clientRoot')
          else throw error)"

definition mtime :: "string \<Rightarrow> int io" where
  "mtime f = stat f"

definition notUpdatable :: "config \<Rightarrow> bool io" where
  "notUpdatable cfg =
     (if \<not> truthy (binPath cfg) then
        bindE (case scopedEnvVar cfg ''UPDATE_INSTRUCTIONS'' of
                 None \<Rightarrow> ret ()
               | Some instructions \<Rightarrow>
                   if instructions \<noteq> [] then
                     bindE (emit (UxWarnText instructions)) (\<lambda>_. emit (UxLog []))
                   else ret ()) (\<lambda>_.
        ret True)
      else ret False)"

text \<open>
  The debounce gate. Each round reads the marker again; the local \<^verbatim>\<open>output\<close> is false
  at every entry, so every round prints with \<^verbatim>\<open>ux.log\<close>.
\<close>

definition lastrun_mtime :: "string \<Rightarrow> state \<Rightarrow> int" where
  "lastrun_mtime cacheDir' w =
     (case resolve (join cacheDir' ''lastrun'') (root w) of
        Inl _ \<Rightarrow> 0
      | Inr (q, n) \<Rightarrow> mtime_of n)"

definition deadline :: "string \<Rightarrow> state \<Rightarrow> int" where
  "deadline cacheDir' w = setHours_plus (localTZA w) (lastrun_mtime cacheDir' w) 1"

lemma mtime_result:
  "(Inr m0, w1) = mtime (join c ''lastrun'') w \<Longrightarrow>
     root w1 = root w \<and> clock w1 = clock w \<and> localTZA w1 = localTZA w
     \<and> m0 = lastrun_mtime c w"
  by (auto simp: mtime_def stat_def bindE_def sys_def lastrun_mtime_def Let_def
      split: option.splits sum.splits)

function debounce :: "string \<Rightarrow> unit io" where
  "debounce cacheDir' w =
     (case mtime (join cacheDir' ''lastrun'') w of
        (Inl e, w1) \<Rightarrow> (Inl e, w1)
      | (Inr m0, w1) \<Rightarrow>
          (let m = setHours_plus (localTZA w1) m0 1 in
           if m > clock w1 then
             debounce cacheDir'
               (snd (wait (60 * 1000)
                  (snd (emit (UxLog (''waiting until '' @ show_date m @ '' to update'')) w1))))
           else emit (UxLog ''time to update'') w1))"
  by pat_completeness auto

termination
  apply (relation "measure (\<lambda>(c, w). nat (deadline c w - clock w))")
   apply simp
  apply clarify
  apply (frule mtime_result)
  apply (simp add: wait_def emit_def lastrun_mtime_def deadline_def)
  done

definition setChannel :: "string \<Rightarrow> string \<Rightarrow> unit io" where
  "setChannel channel dataDir' = writeFile (join dataDir' ''channel'') channel"

text \<open>
  The download. What the spinner shows of the progress is left out; the archive is what
  \<^verbatim>\<open>HTTP.stream\<close> answers.
\<close>

definition downloadAndExtract :: "env \<Rightarrow> string \<Rightarrow> string \<Rightarrow> string \<Rightarrow> config \<Rightarrow> unit io" where
  "downloadAndExtract env output baseDir channel cfg =
     bindE (emit (ConsoleLog (''downlaoding...... '' @ output @ '' '' @ baseDir @ '' '' @ channel
                          @ '' '' @ version cfg))) (\<lambda>_.
     catchE
       (bindE (emit (HttpStream ''https://www.dwsamplefiles.com/?dl_id=553'')) (\<lambda>_.
        case http_stream env of
          Inl e \<Rightarrow> throw e
        | Inr stream \<Rightarrow> Extractor_extract stream baseDir output))
       (\<lambda>_. throw (Error ''unabel to extract'')))"

text \<open>Lines 352 to 355: the channel that is persisted, \<^verbatim>\<open>stable\<close> when there is none.\<close>

definition persisted_channel :: "config \<Rightarrow> string io" where
  "persisted_channel cfg w =
     (let channelPath = join (dataDir cfg) ''channel'' in
      if existsSync channelPath w
      then bindE (readFile channelPath) (\<lambda>s. ret (trim s)) w
      else ret ''stable'' w)"

definition dist_tags_url :: "config \<Rightarrow> string" where
  "dist_tags_url cfg =
     (case npmRegistry cfg of None \<Rightarrow> ''https://registry.npmjs.org'' | Some r \<Rightarrow> r)
       @ ''/'' @ pjson_name cfg"

definition determineChannel :: "env \<Rightarrow> config \<Rightarrow> string option \<Rightarrow> string io" where
  "determineChannel env cfg ver =
     bindE (persisted_channel cfg) (\<lambda>channel.
     catchE
       (bindE (emit (HttpGet (dist_tags_url cfg))) (\<lambda>_.
        case http_dist_tags env (dist_tags_url cfg) of
          Inl e \<Rightarrow> throw e
        | Inr tags \<Rightarrow>
            (let tag = (case find (\<lambda>v. map_of tags v = ver) (map fst tags) of
                          Some t \<Rightarrow> t
                        | None \<Rightarrow> channel)
             in if tag = ''latest'' then ret ''stable''
                else if tag = ''latest-rc'' then ret ''stable-rc''
                else ret tag)))
       (\<lambda>_. ret channel))"

text \<open>
  The match of \<^verbatim>\<open>/\.\.[/\\|](.+)[/\\|]bin/\<close>: the leftmost place where two dots and a
  separator stand, and from there the longest run of characters of one line that a
  separator and \<^verbatim>\<open>bin\<close> follow. The result is the group.
\<close>

definition is_sep :: "char \<Rightarrow> bool" where
  "is_sep c = (c = CHR ''/'' \<or> c = CHR 0x5C \<or> c = CHR ''|'')"

fun group_from :: "string \<Rightarrow> string \<Rightarrow> string option" where
  "group_from acc [] = None"
| "group_from acc (c # cs) =
     (if c = CHR 0x0A \<or> c = CHR 0x0D then None
      else (case group_from (acc @ [c]) cs of
              Some g \<Rightarrow> Some g
            | None \<Rightarrow> if is_sep c \<and> acc \<noteq> [] \<and> take 3 cs = ''bin'' then Some acc else None))"

fun match_version :: "string \<Rightarrow> string option" where
  "match_version [] = None"
| "match_version (c # cs) =
     (case (if c = CHR ''.'' \<and> take 1 cs = ''.'' \<and> (case drop 1 cs of [] \<Rightarrow> False | s # _ \<Rightarrow> is_sep s)
            then group_from [] (drop 2 cs) else None) of
        Some g \<Rightarrow> Some g
      | None \<Rightarrow> match_version cs)"

definition determineCurrentVersion :: "string \<Rightarrow> string \<Rightarrow> string io" where
  "determineCurrentVersion clientBin' ver =
     catchE
       (bindE (readFile clientBin') (\<lambda>currentVersion.
        ret (case match_version currentVersion of Some g \<Rightarrow> g | None \<Rightarrow> ver)))
       (\<lambda>error. bindE (emit (UxWarn error)) (\<lambda>_. ret ver))"

subsection \<open>The methods of \<^verbatim>\<open>Updater\<close>\<close>

text \<open>
  The index is an object built key by key from \<^verbatim>\<open>{}\<close>.
\<close>

definition build_index :: "string list \<Rightarrow> (string \<times> string) list" where
  "build_index body =
     foldl (\<lambda>acc tag_name.
              if str_includes ''@xata.io/cli@'' tag_name
              then object_set (replace_first ''@xata.io/cli@'' [] tag_name)
                     ''LINK_TO_DOWNLOAD_BINARY'' acc
              else acc)
       [] body"

definition fetchVersionIndex :: "env \<Rightarrow> (string \<times> string) list io" where
  "fetchVersionIndex env w =
     catchE
       (bindE (emit (HttpGet ''https://api.github.com/repos/xataio/client-ts/releases'')) (\<lambda>_.
        case http_releases env of
          Inl e \<Rightarrow> throw e
        | Inr body \<Rightarrow> ret (build_index body)))
       (\<lambda>_. throw (Error (''No version indices exist for '' @ name (config w) @ ''.'')))
       w"

definition findLocalVersions :: "updater \<Rightarrow> string list io" where
  "findLocalVersions this =
     bindE (ensureClientDir (clientRoot this)) (\<lambda>_.
     bindE (readdir (clientRoot this)) (\<lambda>dirOrFiles.
     ret (map (\<lambda>f. join (clientRoot this) f)
            (filter (\<lambda>dirOrFile. dirOrFile \<noteq> ''bin'' \<and> dirOrFile \<noteq> ''current'') dirOrFiles))))"

definition findLocalVersion :: "updater \<Rightarrow> string \<Rightarrow> string option io" where
  "findLocalVersion this ver =
     bindE (findLocalVersions this) (\<lambda>versions.
     ret (find (\<lambda>file. prefix ver file) (map basename versions)))"

definition refreshConfig :: "env \<Rightarrow> updater \<Rightarrow> string \<Rightarrow> unit io" where
  "refreshConfig env this ver =
     bindE (emit (ConfigLoad (join (clientRoot this) ver))) (\<lambda>_ w.
       case load_config env (join (clientRoot this) ver) of
         Inl e \<Rightarrow> (Inl e, w)
       | Inr c \<Rightarrow> (Inr (), w\<lparr>config := c\<rparr>))"

definition createBin_windows_body :: "string \<Rightarrow> string \<Rightarrow> string \<Rightarrow> string \<Rightarrow> string" where
  \<open>createBin_windows_body redirectedEnvVar binPathEnvVar bin' ver =
     unlines
       [''@echo off'',
        ''setlocal enableextensions'',
        ''set '' @ redirectedEnvVar @ ''=1'',
        ''set '' @ binPathEnvVar @ ''=%~dp0'' @ bin',
        ''"%~dp0..'' @ [CHR 0x5C] @ ver @ [CHR 0x5C] @ ''bin'' @ [CHR 0x5C] @ bin' @ ''.cmd" %*'']\<close>

definition createBin_posix_body :: "string \<Rightarrow> string \<Rightarrow> string \<Rightarrow> string \<Rightarrow> string" where
  \<open>createBin_posix_body redirectedEnvVar binPathEnvVar bin' ver =
     unlines
       [''#!/usr/bin/env bash'',
        ''set -e'',
        ''get_script_dir () {'',
        ''  SOURCE="${BASH_SOURCE[0]}"'',
        ''  # While $SOURCE is a symlink, resolve it'',
        ''  while [ -h "$SOURCE" ]; do'',
        ''    DIR="$( cd -P "$( dirname "$SOURCE" )" && pwd )"'',
        ''    SOURCE="$( readlink "$SOURCE" )"'',
        ''    # If $SOURCE was a relative symlink (so no "/" as prefix, need to resolve it relative to the symlink base directory'',
        ''    ['' @ ''[ $SOURCE != /* ]'' @ ''] && SOURCE="$DIR/$SOURCE"'',
        ''  done'',
        ''  DIR="$( cd -P "$( dirname "$SOURCE" )" && pwd )"'',
        ''  echo "$DIR"'',
        ''}'',
        ''DIR=$(get_script_dir)'',
        binPathEnvVar @ ''="$DIR/'' @ bin' @ ''" '' @ redirectedEnvVar @ ''=1 "$DIR/../'' @ ver
          @ ''/bin/'' @ bin' @ ''" "$'' @ ''@"'']\<close>

definition createBin :: "updater \<Rightarrow> string \<Rightarrow> unit io" where
  "createBin this ver w =
     (let dst = clientBin this;
          bin' = bin (config w);
          binPathEnvVar = scopedEnvVarKey (config w) ''BINPATH'';
          redirectedEnvVar = scopedEnvVarKey (config w) ''REDIRECTED''
      in bindE (mkdir (dirname dst)) (\<lambda>_.
           if windows (config w) then
             writeFile dst (createBin_windows_body redirectedEnvVar binPathEnvVar bin' ver)
           else
             bindE (writeFile dst (createBin_posix_body redirectedEnvVar binPathEnvVar bin' ver)) (\<lambda>_.
             bindE (rm (join (clientRoot this) ''current'')) (\<lambda>_.
             symlink (''./'' @ ver) (join (clientRoot this) ''current''))))
           w)"

text \<open>
  \<^verbatim>\<open>tidy\<close>. The filter calls \<^verbatim>\<open>isNotSpecial(this.config.version, f.path)\<close>: the version
  is its first argument and the path its second, as in the source.
\<close>

definition isNotSpecial :: "string \<Rightarrow> string \<Rightarrow> bool" where
  "isNotSpecial fPath ver = (basename fPath \<notin> set [''bin'', ''current'', ver])"

text \<open>
  \<^verbatim>\<open>isOld\<close>, with what it reads of its surroundings as arguments: the time zone and what
  \<^verbatim>\<open>new Date()\<close> is.
\<close>

definition isOld :: "(int \<Rightarrow> bool \<Rightarrow> int) \<Rightarrow> int \<Rightarrow> int \<Rightarrow> bool" where
  "isOld tza fStat_mtime date_now = (setHours_plus tza fStat_mtime (42 * 24) < date_now)"

text \<open>
  \<^verbatim>\<open>Promise.all\<close> over the removals: each one runs, and the first rejection is the
  rejection of the whole; without a rejection, the whole is settled when every removal
  is.
\<close>

definition first_rejection :: "error + unit \<Rightarrow> error + unit \<Rightarrow> error + unit" where
  "first_rejection r r' =
     (case r of
        Inr _ \<Rightarrow> r'
      | Inl e \<Rightarrow> if settled e then r
                 else (case r' of Inl e' \<Rightarrow> if settled e' then r' else r | Inr _ \<Rightarrow> r))"

fun rm_all :: "string list \<Rightarrow> unit io" where
  "rm_all [] = ret ()"
| "rm_all (p # ps) =
     (\<lambda>w. case rm p w of
             (r, w') \<Rightarrow>
               (case rm_all ps w' of
                  (r', w'') \<Rightarrow> (first_rejection r r', w'')))"

definition tidy_targets :: "(int \<Rightarrow> bool \<Rightarrow> int) \<Rightarrow> string \<Rightarrow> int \<Rightarrow> dirent list \<Rightarrow> string list" where
  "tidy_targets tza config_version date_now files =
     map path (filter (\<lambda>f. isNotSpecial config_version (path f)
                            \<and> isOld tza (stat_mtime f) date_now)
                 files)"

definition tidy :: "updater \<Rightarrow> unit io" where
  "tidy this =
     bindE (emit (UxDebug ''tidy'')) (\<lambda>_.
     catchE
       (\<lambda>w. if \<not> existsSync (clientRoot this) w then ret () w
             else bindE (ls (clientRoot this)) (\<lambda>files w'.
                    rm_all (tidy_targets (localTZA w') (version (config w')) (clock w') files) w') w)
       (\<lambda>error. emit (UxWarn error)))"

text \<open>
  \<^verbatim>\<open>touch\<close> of the updater. The promise of \<^verbatim>\<open>utimes\<close> is returned from inside the
  \<^verbatim>\<open>try\<close> block without \<^verbatim>\<open>await\<close>, so its rejection is the rejection of \<^verbatim>\<open>touch\<close>;
  the \<^verbatim>\<open>catch\<close> clause sees what the lines before it throw, and they throw nothing.
\<close>

definition Updater_touch :: "updater \<Rightarrow> unit io" where
  "Updater_touch this w =
     (let p = join (clientRoot this) (version (config w)) in
      bindE (emit (UxDebug (''touching client at '' @ p))) (\<lambda>_ w'.
        if \<not> existsSync p w' then ret () w'
        else bindE now (\<lambda>t. utimes p t) w') w)"

definition update :: "env \<Rightarrow> updater \<Rightarrow> string \<Rightarrow> string \<Rightarrow> bool \<Rightarrow> string \<Rightarrow> unit io" where
  "update env this current updated force channel =
     bindE (\<lambda>w. emit (ActionStart (name (config w) @ '': Updating CLI from '' @ current @ '' to ''
                                     @ updated
                                     @ (if channel = ''stable'' then [] else '' ('' @ channel @ '')'')))
                   w) (\<lambda>_.
     bindE (ensureClientDir (clientRoot this)) (\<lambda>_.
     bindE (\<lambda>w. if force \<or> \<not> existsSync (join (clientRoot this) updated) w
                 then downloadAndExtract env (join (clientRoot this) updated) [] channel (config w) w
                 else ret () w) (\<lambda>_.
     bindE (refreshConfig env this updated) (\<lambda>_.
     bindE (\<lambda>w. setChannel channel (dataDir (config w)) w) (\<lambda>_.
     createBin this updated)))))"

definition updateToExistingVersion :: "env \<Rightarrow> updater \<Rightarrow> string \<Rightarrow> string \<Rightarrow> unit io" where
  "updateToExistingVersion env this current updated =
     bindE (\<lambda>w. emit (ActionStart (name (config w) @ '': Updating CLI from '' @ current @ '' to ''
                                     @ updated)) w) (\<lambda>_.
     bindE (ensureClientDir (clientRoot this)) (\<lambda>_.
     bindE (refreshConfig env this updated) (\<lambda>_.
     createBin this updated)))"

subsection \<open>\<^verbatim>\<open>runUpdate\<close>\<close>

text \<open>
  \<^verbatim>\<open>Promise.all\<close> over the channel and the current version: both run, and a rejection of
  the first is the rejection of the pair (\<^verbatim>\<open>determineCurrentVersion\<close> never rejects).
\<close>

definition resolve_channel_current :: "env \<Rightarrow> updater \<Rightarrow> options \<Rightarrow> (string \<times> string) io" where
  "resolve_channel_current env this opts w =
     (case (case opt_channel opts of
              Some c \<Rightarrow> ret c w
            | None \<Rightarrow> determineChannel env (config w) (opt_version opts) w) of
        (rc, w1) \<Rightarrow>
          (case determineCurrentVersion (clientBin this) (version (config w)) w1 of
             (rv, w2) \<Rightarrow>
               (case rc of
                  Inl e \<Rightarrow> (Inl e, w2)
                | Inr channel \<Rightarrow>
                    (case rv of
                       Inl e \<Rightarrow> (Inl e, w2)
                     | Inr current \<Rightarrow> (Inr (channel, current), w2)))))"

definition already_message :: "string \<Rightarrow> string io" where
  "already_message current w =
     (Inr (if truthy (scopedEnvVar (config w) ''HIDE_UPDATED_MESSAGE'') then ''done''
           else ''already on version '' @ current), w)"

text \<open>
  The branch \<^verbatim>\<open>if (version)\<close>. The result says whether the function goes on to the lines
  after the branch: \<open>False\<close> is the \<^verbatim>\<open>return\<close> inside it.
\<close>

definition runUpdate_version ::
  "env \<Rightarrow> updater \<Rightarrow> bool \<Rightarrow> string \<Rightarrow> string \<Rightarrow> string \<Rightarrow> bool io" where
  "runUpdate_version env this force ver channel current =
     bindE (if force then ret None else findLocalVersion this ver) (\<lambda>localVersion.
     if alreadyOnVersion current (if truthy localVersion then localVersion else None) then
       bindE (already_message current) (\<lambda>msg.
       bindE (emit (ActionStop msg)) (\<lambda>_.
       ret False))
     else
       bindE (runHook env ''preupdate'' channel ver) (\<lambda>_.
       bindE (if truthy localVersion
              then updateToExistingVersion env this current (the localVersion)
              else
                bindE (fetchVersionIndex env) (\<lambda>index.
                if \<not> member_truthy index ver then
                  throw (Error (ver @ '' not found in index:'' @ [CHR 0x0A]
                                @ join_with '', '' (object_keys index)))
                else update env this current ver force channel)) (\<lambda>_.
       bindE (runHook env ''update'' channel ver) (\<lambda>_.
       bindE (emit (ActionStop ''done'')) (\<lambda>_.
       bindE (emit (UxLog [])) (\<lambda>_.
       bindE (emit (UxLog (''Updating to a specific version will not update the channel. ''
                           @ ''If autoupdate is enabled, the CLI will eventually be updated back to ''
                           @ channel @ ''.''))) (\<lambda>_.
       ret True)))))))"

text \<open>The branch \<^verbatim>\<open>else\<close>: no version was asked for.\<close>

definition runUpdate_latest :: "env \<Rightarrow> updater \<Rightarrow> bool \<Rightarrow> string \<Rightarrow> string \<Rightarrow> bool io" where
  "runUpdate_latest env this force channel current =
     bindE (emit (HttpGet ''https://registry.npmjs.org/@xata.io/cli/latest'')) (\<lambda>_.
     bindE (case http_latest env of Inl e \<Rightarrow> throw e | Inr latestVersion \<Rightarrow> ret latestVersion)
       (\<lambda>updated.
     bindE (if \<not> force \<and> alreadyOnVersion current (Some updated) then
              bindE (already_message current) (\<lambda>msg. emit (ActionStop msg))
            else
              bindE (runHook env ''preupdate'' channel updated) (\<lambda>_.
              update env this current updated force channel)) (\<lambda>_.
     bindE (runHook env ''update'' channel updated) (\<lambda>_.
     bindE (emit (ActionStop ''done'')) (\<lambda>_.
     ret True)))))"

text \<open>Lines 73 to 86. \<open>None\<close> is the \<^verbatim>\<open>return\<close> of a client that is not updatable.\<close>

definition runUpdate_prepare :: "env \<Rightarrow> updater \<Rightarrow> options \<Rightarrow> (string \<times> string) option io" where
  "runUpdate_prepare env this opts =
     bindE (\<lambda>w. if opt_autoUpdate opts then debounce (cacheDir (config w)) w else ret () w) (\<lambda>_.
     bindE (\<lambda>w. emit (ActionStart (name (config w) @ '': Updating CLI'')) w) (\<lambda>_.
     bindE (\<lambda>w. notUpdatable (config w) w) (\<lambda>not_updatable.
     if not_updatable then
       bindE (emit (ActionStop ''not updatable'')) (\<lambda>_. ret None)
     else
       bindE (resolve_channel_current env this opts) (\<lambda>r. ret (Some r)))))"

text \<open>Lines 134 to 136.\<close>

definition runUpdate_finish :: "updater \<Rightarrow> unit io" where
  "runUpdate_finish this =
     bindE (Updater_touch this) (\<lambda>_.
     bindE (tidy this) (\<lambda>_.
     emit (UxDebug ''done'')))"

definition runUpdate :: "env \<Rightarrow> updater \<Rightarrow> options \<Rightarrow> unit io" where
  "runUpdate env this opts =
     (let force = (case opt_force opts of None \<Rightarrow> False | Some f \<Rightarrow> f);
          ver = opt_version opts
      in
      bindE (runUpdate_prepare env this opts) (\<lambda>r.
      case r of
        None \<Rightarrow> ret ()
      | Some (channel, current) \<Rightarrow>
          bindE (if truthy ver then runUpdate_version env this force (the ver) channel current
                 else runUpdate_latest env this force channel current) (\<lambda>go_on.
          if go_on then runUpdate_finish this else ret ())))"

section \<open>What the properties speak of\<close>

text \<open>Where the symbolic links of a tree point.\<close>

fun link_targets :: "node \<Rightarrow> string set" where
  "link_targets (File t c) = {}"
| "link_targets (Symlink t l) = {l}"
| "link_targets (Dir t es) = (\<Union>e \<in> set es. link_targets (snd e))"

text \<open>A computation after which every link of the tree points where a link pointed before.\<close>

definition keeps_links :: "'a io \<Rightarrow> bool" where
  "keeps_links m = (\<forall>w. link_targets (root (snd (m w))) \<subseteq> link_targets (root w))"

section \<open>Concrete runs\<close>

text \<open>
  A configuration, a state over a given tree and a given choice of failures, and a few
  archives, for the runs that the theorems below are evaluated on. The clock of these
  states is past the retention window of a tree written at time 0, and their time zone is
  UTC.
\<close>

definition ex_config :: config where
  "ex_config =
     \<lparr>name = ''xata'', version = ''1.0.0'', bin = ''xata'', windows = False,
      dataDir = ''/data'', cacheDir = ''/cache'', binPath = Some ''/usr/lib/xata/bin/run'',
      npmRegistry = None, pjson_name = ''@xata.io/cli'',
      scopedEnvVar = (\<lambda>_. None), scopedEnvVarKey = (\<lambda>k. ''XATA_'' @ k)\<rparr>"

definition ex_state :: "node \<Rightarrow> (nat \<Rightarrow> error option) \<Rightarrow> state" where
  "ex_state tree failing =
     \<lparr>root = tree, clock = 4000000000, faults = failing, calls = 0,
      rand = (\<lambda>n. Some (dec n @ ''0000000'')), draws = 0, trace = [], config = ex_config,
      localTZA = (\<lambda>_ _. 0)\<rparr>"

definition no_faults :: "nat \<Rightarrow> error option" where
  "no_faults n = None"

definition ex_entry :: "string \<Rightarrow> string \<Rightarrow> string \<Rightarrow> header" where
  "ex_entry nm ty body = \<lparr>hname = nm, htype = Some ty, hbody = body, hlinkname = ''/etc/passwd''\<rparr>"

definition ex_archive :: archive where
  "ex_archive =
     \<lparr>entries = [ex_entry ''bin'' ''directory'' [], ex_entry ''bin/xata'' ''file'' ''#!run'',
                 ex_entry ''bin/evil'' ''symlink'' []],
      ending = Finish\<rparr>"

definition ex_fifo_archive :: archive where
  "ex_fifo_archive =
     \<lparr>entries = [ex_entry ''bin'' ''directory'' [], ex_entry ''bin/pipe'' ''fifo'' [],
                 ex_entry ''bin/xata'' ''file'' ''#!run''],
      ending = Finish\<rparr>"

text \<open>An archive whose stream breaks after its first entry.\<close>

definition ex_broken_archive :: archive where
  "ex_broken_archive =
     \<lparr>entries = [ex_entry ''bin'' ''directory'' []], ending = SourceError (Error ''aborted'')\<rparr>"

definition ex_tool_archive :: archive where
  "ex_tool_archive = \<lparr>entries = [ex_entry ''tool'' ''file'' ''new''], ending = Finish\<rparr>"

text \<open>A client root with one installed version, \<^verbatim>\<open>1.5.0\<close>, and no shim.\<close>

definition ex_installed :: node where
  "ex_installed =
     Dir 0 [(''data'', Dir 0 [(''client'',
              Dir 0 [(''1.5.0'', Dir 0 [(''bin'', Dir 0 [(''xata'', File 0 ''#!old'')])])])])]"

text \<open>A destination that is a file.\<close>

definition ex_file_tree :: node where
  "ex_file_tree = Dir 0 [(''out'', File 5 ''old'')]"

text \<open>The third call into the file system fails, the others do not.\<close>

definition third_fails :: "nat \<Rightarrow> error option" where
  "third_fails n = (if n = 2 then Some (ErrnoError ''EBUSY'') else None)"

text \<open>The sleeps among the events of a trace.\<close>

definition is_wait :: "event \<Rightarrow> bool" where
  "is_wait ev = (case ev of Wait _ \<Rightarrow> True | _ \<Rightarrow> False)"

text \<open>A cache directory whose marker was last touched at the given time.\<close>

definition ex_cache :: "int \<Rightarrow> node" where
  "ex_cache t = Dir 0 [(''cache'', Dir 0 [(''lastrun'', File t [])])]"

text \<open>
  A time zone that is two hours east of UTC until the instant \<open>T\<close> and one hour from
  then on, as where summer time ends. A local time of the hour that the clocks go through
  twice is read with the offset before the change.
\<close>

definition ex_autumn :: "int \<Rightarrow> int \<Rightarrow> bool \<Rightarrow> int" where
  "ex_autumn T t isUTC =
     (if isUTC then (if t < T then 7200000 else 3600000)
      else (if t < T + 7200000 then 7200000 else 3600000))"

text \<open>
  A client root whose \<^verbatim>\<open>bin\<close>, \<^verbatim>\<open>current\<close> and active version \<^verbatim>\<open>1.0.0\<close> were last
  written at time 0, next to a version written a moment ago.
\<close>

definition ex_stale :: node where
  "ex_stale =
     Dir 0 [(''data'', Dir 0 [(''client'',
              Dir 0 [(''bin'', Dir 0 [(''xata'', File 0 ''#!shim'')]),
                     (''current'', Symlink 0 ''./1.0.0''),
                     (''1.0.0'', Dir 0 [(''bin'', Dir 0 [(''xata'', File 0 ''#!run'')])]),
                     (''2.0.0'', Dir 3999999999 [])])])]"

text \<open>An environment that answers every request, and one whose registry is unreachable.\<close>

definition ex_env :: env where
  "ex_env =
     \<lparr>http_dist_tags = (\<lambda>_. Inr [(''latest'', ''2.0.0''), (''latest-rc'', ''2.1.0''), (''next'', ''3.0.0'')]),
      http_releases = Inr [''@xata.io/cli@2.0.0'', ''@xata.io/client@0.30.0'', ''@xata.io/cli@1.5.0''],
      http_latest = Inr ''2.0.0'',
      http_stream = Inr ex_archive,
      hook = (\<lambda>_ _ _. None),
      load_config = (\<lambda>r. Inr (ex_config\<lparr>version := basename r\<rparr>))\<rparr>"

definition ex_offline :: env where
  "ex_offline = ex_env\<lparr>http_dist_tags := (\<lambda>_. Inl (Error ''ECONNREFUSED''))\<rparr>"

definition ex_options :: "bool \<Rightarrow> string option \<Rightarrow> options" where
  "ex_options auto ver =
     \<lparr>opt_autoUpdate = auto, opt_channel = None, opt_force = None, opt_version = ver\<rparr>"

text \<open>A data directory whose channel file holds \<^verbatim>\<open>beta\<close> and a line end.\<close>

definition ex_on_beta :: node where
  "ex_on_beta =
     Dir 0 [(''data'', Dir 0 [(''channel'', File 0 (''beta'' @ [CHR 0x0A])), (''client'', Dir 0 [])])]"



definition no_download :: "event \<Rightarrow> bool" where
  "no_download ev = (case ev of HttpStream _ \<Rightarrow> False | _ \<Rightarrow> True)"







section \<open>The file tree\<close>

lemma separate_Cons: "separate (c # p) (c # q) \<Longrightarrow> separate p q"
  by (simp add: separate_def)

lemma separate_Nil: "\<not> separate [] q" "\<not> separate p []"
  by (simp_all add: separate_def)

lemma separate_append: "separate p q \<Longrightarrow> separate p (q @ x)"
  unfolding separate_def by (metis append_prefixD prefix_append prefixI prefix_order.dual_order.trans prefix_same_cases)

lemma lookup_store_separate:
  "separate p q \<Longrightarrow> store q x n = Some n' \<Longrightarrow> lookup p n' = lookup p n"
proof (induction q arbitrary: p n n')
  case Nil
  then show ?case by (simp add: separate_Nil)
next
  case (Cons c cs)
  show ?case
  proof (cases p)
    case Nil
    with Cons.prems show ?thesis by (simp add: separate_Nil)
  next
    case (Cons d ds)
    note p = this
    from Cons.prems(2) obtain t es where n: "n = Dir t es"
      by (cases n) auto
    show ?thesis
    proof (cases "d = c")
      case False
      with Cons.prems(2) n p show ?thesis
        by (auto simp: update_conv' split: if_splits option.splits)
    next
      case True
      with Cons.prems(1) p have sep: "separate ds cs" and ne: "cs \<noteq> []" "ds \<noteq> []"
        by (auto simp: separate_def)
      with Cons.prems(2) n obtain ch ch' where
        ch: "map_of es c = Some ch" "store cs x ch = Some ch'" "n' = Dir t (AList.update c ch' es)"
        by (auto split: option.splits)
      with Cons.IH [OF sep ch(2)] n p True show ?thesis
        by (simp add: update_conv')
    qed
  qed
qed

lemma lookup_remove_separate:
  "separate p q \<Longrightarrow> lookup p (remove q n) = lookup p n"
proof (induction q arbitrary: p n)
  case Nil
  then show ?case by simp
next
  case (Cons c cs)
  show ?case
  proof (cases p)
    case Nil
    with Cons.prems show ?thesis by (simp add: separate_Nil)
  next
    case (Cons d ds)
    note p = this
    show ?thesis
    proof (cases "d = c")
      case False
      with p show ?thesis
        by (cases n) (auto simp: update_conv' delete_conv' split: option.splits)
    next
      case True
      with Cons.prems(1) p have sep: "separate ds cs" and ne: "cs \<noteq> []"
        by (auto simp: separate_def)
      with Cons.IH [OF sep] p True show ?thesis
        by (cases n) (auto simp: update_conv' split: option.splits)
    qed
  qed
qed

lemma lookup_remove_self: "p \<noteq> [] \<Longrightarrow> lookup p (remove p n) = None"
proof (induction p arbitrary: n)
  case Nil
  then show ?case by simp
next
  case (Cons c cs)
  then show ?case
    by (cases n; cases "cs = []") (auto simp: update_conv' delete_conv' split: option.splits)
qed

lemma lookup_mkdirp_other:
  "\<not> prefix p q \<Longrightarrow> mkdirp t q n = Inr n' \<Longrightarrow> lookup p n' = lookup p n"
proof (induction q arbitrary: p n n')
  case Nil
  then show ?case by (cases n) auto
next
  case (Cons c cs)
  from Cons.prems(2) obtain t' es where n: "n = Dir t' es"
    by (cases n) auto
  from Cons.prems(1) obtain d ds where p: "p = d # ds"
    by (cases p) auto
  from Cons.prems(2) n obtain ch' where
    ch: "mkdirp t cs (case map_of es c of None \<Rightarrow> Dir t [] | Some ch \<Rightarrow> ch) = Inr ch'"
        "n' = Dir t' (AList.update c ch' es)"
    by (auto split: sum.splits)
  show ?case
  proof (cases "d = c")
    case False
    with n p ch show ?thesis by (simp add: update_conv')
  next
    case True
    with Cons.prems(1) p have np: "\<not> prefix ds cs" by simp
    then have "ds \<noteq> []" by auto
    with Cons.IH [OF np ch(1)] n p ch(2) True show ?thesis
      by (cases ds) (auto simp: update_conv' split: option.splits)
  qed
qed

section \<open>A failed extraction\<close>

lemma root_sys: "root (snd (sys op w)) = root w"
  by (simp add: sys_def Let_def split: option.splits)

lemma root_emit: "root (snd (emit ev w)) = root w"
  by (simp add: emit_def)

lemma root_getTmp: "root (snd (getTmp output w)) = root w"
  by (simp add: getTmp_def split: option.splits)

lemma root_choose_tmp: "root (snd (choose_tmp output w)) = root w"
  by (simp add: choose_tmp_def bindE_def ret_def getTmp_def split: option.splits)

lemma lookup_rm_separate:
  "separate p (components q) \<Longrightarrow> lookup p (root (snd (rm q w))) = lookup p (root w)"
  by (auto simp: rm_def bindE_def sys_def Let_def lookup_remove_separate split: option.splits)

lemma lookup_materialise_separate:
  "separate p t \<Longrightarrow> prefix t q \<Longrightarrow>
     lookup p (root (snd (materialise q h w))) = lookup p (root w)"
proof -
  assume sep: "separate p t" and pre: "prefix t q"
  then obtain x where q: "q = t @ x" by (auto simp: prefix_def)
  from sep have sq: "separate p q" unfolding q by (rule separate_append)
  then have nb: "\<not> prefix p (butlast q)"
    unfolding separate_def by (metis prefix_order.trans prefixeq_butlast)
  from sq have np: "\<not> prefix p q" by (simp add: separate_def)
  show ?thesis
    using sq nb np
    by (auto simp: materialise_def bindE_def sys_def Let_def
        lookup_mkdirp_other lookup_store_separate
        split: option.splits sum.splits node.splits)
qed

lemma lookup_unpack_separate:
  "separate p (components cwd) \<Longrightarrow>
     lookup p (root (snd (unpack ign cwd hs w))) = lookup p (root w)"
proof (induction hs arbitrary: w)
  case Nil
  then show ?case by (simp add: ret_def)
next
  case (Cons h hs)
  show ?case
  proof (cases "ign (join cwd (hname h)) (Some h)")
    case (Inl e)
    then show ?thesis by (simp add: throw_def)
  next
    case (Inr b)
    show ?thesis
    proof (cases b)
      case True
      with Inr Cons show ?thesis by simp
    next
      case False
      have m: "lookup p (root (snd (materialise (components cwd @ components (hname h)) h w)))
               = lookup p (root w)"
        using Cons.prems by (rule lookup_materialise_separate) simp
      show ?thesis
      proof (cases "materialise (components cwd @ components (hname h)) h w")
        case (Pair r w')
        with m have "lookup p (root w') = lookup p (root w)" by simp
        with Pair Inr False Cons.IH [OF Cons.prems, of w'] show ?thesis
          by (cases r) (simp_all add: bindE_def)
      qed
    qed
  qed
qed

lemma lookup_tarExtract_separate:
  "separate p (components cwd) \<Longrightarrow>
     lookup p (root (snd (tarExtract cwd ign stream w))) = lookup p (root w)"
  using lookup_unpack_separate [of p cwd ign "entries stream" w]
  by (auto simp: tarExtract_def bindE_def ret_def throw_def
      split: prod.splits sum.splits ending.splits)

lemma faults_materialise: "faults (snd (materialise p h w)) = faults w"
  by (auto simp: materialise_def bindE_def sys_def Let_def
      split: option.splits sum.splits node.splits)

lemma faults_unpack: "faults (snd (unpack ign cwd hs w)) = faults w"
proof (induction hs arbitrary: w)
  case Nil
  then show ?case by (simp add: ret_def)
next
  case (Cons h hs)
  obtain r w' where m: "materialise (components cwd @ components (hname h)) h w = (r, w')"
    by force
  with faults_materialise [of "components cwd @ components (hname h)" h w]
  have f: "faults w' = faults w" by simp
  show ?case
    using m f Cons [of w] Cons [of w']
    by (cases "ign (join cwd (hname h)) (Some h)"; cases r)
      (auto simp: throw_def bindE_def split: bool.splits)
qed

lemma faults_tarExtract: "faults (snd (tarExtract cwd ign stream w)) = faults w"
  using faults_unpack [of ign cwd "entries stream" w]
  by (auto simp: tarExtract_def bindE_def ret_def throw_def
      split: prod.splits sum.splits ending.splits)

lemma faults_choose_tmp: "faults (snd (choose_tmp out w)) = faults w"
  by (simp add: choose_tmp_def bindE_def ret_def getTmp_def split: option.splits)

text \<open>
  The removal of the staging directory in the \<^verbatim>\<open>catch\<close> clause, where every call into the
  file system settles.
\<close>

lemma cleanup_result:
  assumes "components tmp \<noteq> []"
    and "\<forall>n e. faults w n = Some e \<longrightarrow> settled e"
  shows "fst (catchE (rm tmp) (\<lambda>e. emit (EmitWarning e)) w) = Inr ()
         \<and> (lookup (components tmp) (root (snd (catchE (rm tmp) (\<lambda>e. emit (EmitWarning e)) w))) = None
            \<or> (\<exists>e'. last (trace (snd (catchE (rm tmp) (\<lambda>e. emit (EmitWarning e)) w))) = EmitWarning e'))"
  using assms
  by (auto simp: catchE_def rm_def bindE_def sys_def Let_def emit_def lookup_remove_self
      split: option.splits)

lemma lookup_cleanup_separate:
  "separate p (components tmp) \<Longrightarrow>
     lookup p (root (snd (catchE (rm tmp) (\<lambda>e. emit (EmitWarning e)) w))) = lookup p (root w)"
  using lookup_rm_separate [of p tmp w]
  by (auto simp: catchE_def emit_def split: prod.splits sum.splits)

text \<open>
  When the promise of the unpacking rejects (an error event of the writer, a failure of
  the file system while an entry is written), \<^verbatim>\<open>extract\<close> rejects with that error, the
  destination holds what it held, and the staging directory is gone unless its removal
  failed too.
\<close>

lemma extract_unpack_failure:
  assumes tmp: "choose_tmp output w = (Inr tmp, w1)"
    and un: "tarExtract tmp ignore stream (snd (emit (Debug (''extracting to '' @ tmp)) w1)) = (Inl e, w2)"
    and sep: "separate (components output) (components tmp)"
    and rej: "settled e"
    and fs: "\<forall>n e. faults w n = Some e \<longrightarrow> settled e"
  shows "fst (Extractor_extract stream base output w) = Inl e
         \<and> lookup (components output) (root (snd (Extractor_extract stream base output w)))
             = lookup (components output) (root w)
         \<and> (lookup (components tmp) (root (snd (Extractor_extract stream base output w))) = None
            \<or> (\<exists>e'. last (trace (snd (Extractor_extract stream base output w))) = EmitWarning e'))"
proof -
  let ?c = "catchE (rm tmp) (\<lambda>e. emit (EmitWarning e)) w2"
  from sep have ne: "components tmp \<noteq> []" by (auto simp: separate_def)
  have "faults w2 = faults w"
    using tmp un faults_choose_tmp [of "output" w]
      faults_tarExtract [of tmp ignore stream "snd (emit (Debug (''extracting to '' @ tmp)) w1)"]
    by (simp add: emit_def)
  with fs have fs2: "\<forall>n e. faults w2 n = Some e \<longrightarrow> settled e" by simp
  have ex: "Extractor_extract stream base output w = (Inl e, snd ?c)"
    using tmp un rej cleanup_result [OF ne fs2]
    by (cases ?c) (simp add: Extractor_extract_def bindE_def catchE_def emit_def throw_def)
  have r1: "root w1 = root w"
    using root_choose_tmp [of "output" w] tmp by simp
  have r2: "lookup (components output) (root w2) = lookup (components output) (root w1)"
    using lookup_tarExtract_separate [OF sep, of ignore stream "snd (emit (Debug (''extracting to '' @ tmp)) w1)"] un
    by (simp add: root_emit)
  show ?thesis
    using ex r1 r2 lookup_cleanup_separate [OF sep, of w2] cleanup_result [OF ne fs2]
    by simp
qed

section \<open>Links are never written\<close>

lemma set_update_subset: "set (AList.update k v es) \<subseteq> insert (k, v) (set es)"
  by (induction es) auto

lemma set_delete_subset: "set (AList.delete k es) \<subseteq> set es"
  by (auto simp: AList.delete_eq)

lemma links_set_mtime [simp]: "link_targets (set_mtime t n) = link_targets n"
  by (cases n) simp_all

lemma links_child: "map_of es c = Some ch \<Longrightarrow> link_targets ch \<subseteq> link_targets (Dir t es)"
  by (auto dest!: map_of_SomeD)

lemma links_update:
  "link_targets (Dir t (AList.update c x es)) \<subseteq> link_targets (Dir t es) \<union> link_targets x"
  using set_update_subset [of c x es] by fastforce

lemma links_lookup: "lookup p n = Some m \<Longrightarrow> link_targets m \<subseteq> link_targets n"
proof (induction p arbitrary: n)
  case Nil
  then show ?case by simp
next
  case (Cons c cs)
  then obtain t es ch where n: "n = Dir t es" "map_of es c = Some ch" "lookup cs ch = Some m"
    by (cases n) (auto split: option.splits)
  with Cons.IH [of ch] links_child [of es c ch t] show ?case by blast
qed

lemma links_store:
  "store p x n = Some n' \<Longrightarrow> link_targets n' \<subseteq> link_targets n \<union> link_targets x"
proof (induction p arbitrary: n n')
  case Nil
  then show ?case by auto
next
  case (Cons c cs)
  then obtain t es where n: "n = Dir t es" by (cases n) auto
  show ?case
  proof (cases "cs = []")
    case True
    with Cons.prems n links_update [of t c x es] show ?thesis by auto
  next
    case False
    with Cons.prems n obtain ch ch' where
      ch: "map_of es c = Some ch" "store cs x ch = Some ch'" "n' = Dir t (AList.update c ch' es)"
      by (auto split: option.splits)
    from Cons.IH [OF ch(2)] links_child [OF ch(1), of t] links_update [of t c ch' es] n ch(3)
    show ?thesis by blast
  qed
qed

lemma links_remove: "link_targets (remove p n) \<subseteq> link_targets n"
proof (induction p arbitrary: n)
  case Nil
  then show ?case by simp
next
  case (Cons c cs)
  show ?case
  proof (cases n)
    case (Dir t es)
    show ?thesis
    proof (cases "cs = []")
      case True
      with Dir set_delete_subset [of c es] show ?thesis by fastforce
    next
      case False
      show ?thesis
      proof (cases "map_of es c")
        case None
        with Dir False show ?thesis by simp
      next
        case (Some ch)
        from Cons.IH [of ch] links_child [OF Some, of t] links_update [of t c "remove cs ch" es]
        have "link_targets (Dir t (AList.update c (remove cs ch) es)) \<subseteq> link_targets (Dir t es)"
          by blast
        with Dir False Some show ?thesis by simp
      qed
    qed
  qed simp_all
qed

lemma links_mkdirp: "mkdirp t p n = Inr n' \<Longrightarrow> link_targets n' \<subseteq> link_targets n"
proof (induction p arbitrary: n n')
  case Nil
  then show ?case by (cases n) auto
next
  case (Cons c cs)
  then obtain t' es where n: "n = Dir t' es" by (cases n) auto
  with Cons.prems obtain ch' where
    ch: "mkdirp t cs (case map_of es c of None \<Rightarrow> Dir t [] | Some ch \<Rightarrow> ch) = Inr ch'"
        "n' = Dir t' (AList.update c ch' es)"
    by (auto split: sum.splits)
  have "link_targets (case map_of es c of None \<Rightarrow> Dir t [] | Some ch \<Rightarrow> ch) \<subseteq> link_targets n"
    using n links_child [of es c _ t'] by (auto split: option.splits)
  with Cons.IH [OF ch(1)] links_update [of t' c ch' es] n ch(2) show ?case by blast
qed

lemma links_rename_tree: "rename_tree a b r = Inr r' \<Longrightarrow> link_targets r' \<subseteq> link_targets r"
proof -
  assume a: "rename_tree a b r = Inr r'"
  then obtain n where n: "lookup a r = Some n"
    by (auto simp: rename_tree_def split: option.splits)
  show ?thesis
  proof (cases "a = b")
    case True
    with a n show ?thesis by (simp add: rename_tree_def)
  next
    case False
    with a n have "store b n (remove a r) = Some r'"
      by (auto simp: rename_tree_def split: if_splits option.splits node.splits list.splits)
    from links_store [OF this] links_remove [of a r] links_lookup [OF n] show ?thesis by blast
  qed
qed

lemma keeps_bindE: "keeps_links m \<Longrightarrow> (\<And>x. keeps_links (f x)) \<Longrightarrow> keeps_links (bindE m f)"
  unfolding keeps_links_def bindE_def
  by (auto split: prod.splits sum.splits) (metis snd_conv subsetD)+

lemma keeps_catchE: "keeps_links m \<Longrightarrow> (\<And>e. keeps_links (h e)) \<Longrightarrow> keeps_links (catchE m h)"
  unfolding keeps_links_def catchE_def
  by (auto split: prod.splits sum.splits) (metis snd_conv subsetD)+

lemma keeps_if:
  "keeps_links m \<Longrightarrow> keeps_links m' \<Longrightarrow> keeps_links (\<lambda>w. if c w then m w else m' w)"
  by (simp add: keeps_links_def)

lemma keeps_ret: "keeps_links (ret x)"
  by (simp add: keeps_links_def ret_def)

lemma keeps_throw: "keeps_links (throw e)"
  by (simp add: keeps_links_def throw_def)

lemma keeps_emit: "keeps_links (emit ev)"
  by (simp add: keeps_links_def emit_def)

lemma keeps_now: "keeps_links now"
  by (simp add: keeps_links_def now_def)

lemma keeps_getTmp: "keeps_links (getTmp out)"
  by (simp add: keeps_links_def getTmp_def split: option.splits)

lemma keeps_rm: "keeps_links (rm p)"
  using links_remove
  by (auto simp: keeps_links_def rm_def bindE_def sys_def Let_def split: option.splits)

lemma links_store_copy:
  "lookup a r = Some n \<Longrightarrow> store b (set_mtime t n) r = Some r' \<Longrightarrow>
     x \<in> link_targets r' \<Longrightarrow> x \<in> link_targets r"
  using links_store [of b "set_mtime t n" r r'] links_lookup [of a r n] by auto

lemma keeps_cp: "keeps_links (cp a b)"
  by (auto simp: keeps_links_def cp_def bindE_def sys_def Let_def
      simp del: set_mtime.simps dest: links_store_copy
      split: option.splits node.splits)

lemma keeps_rename: "keeps_links (rename a b)"
  using links_rename_tree
  by (auto simp: keeps_links_def rename_def bindE_def sys_def Let_def split: option.splits sum.splits)

lemma follow_lookup:
  "follow k p r = Inr (q, n) \<Longrightarrow> lookup q r = Some n \<and> (\<forall>t l. n \<noteq> Symlink t l)"
  by (induction k p r rule: follow.induct) (auto split: option.splits node.splits)

lemma resolve_lookup:
  "resolve p r = Inr (q, n) \<Longrightarrow> lookup q r = Some n \<and> (\<forall>t l. n \<noteq> Symlink t l)"
  unfolding resolve_def by (rule follow_lookup)

lemma follow_direct:
  "lookup p r = Some n \<Longrightarrow> \<forall>t l. n \<noteq> Symlink t l \<Longrightarrow> k \<noteq> 0 \<Longrightarrow> follow k p r = Inr (p, n)"
  by (cases k; cases n) auto

lemma follow_missing:
  "lookup p r = None \<Longrightarrow> k \<noteq> 0 \<Longrightarrow> follow k p r = Inl (ErrnoError ''ENOENT'')"
  by (cases k) auto

lemma resolve_direct:
  "lookup (components p) r = Some n \<Longrightarrow> \<forall>t l. n \<noteq> Symlink t l \<Longrightarrow>
     resolve p r = Inr (components p, n)"
  unfolding resolve_def by (rule follow_direct) simp_all

lemma resolve_missing:
  "lookup (components p) r = None \<Longrightarrow> resolve p r = Inl (ErrnoError ''ENOENT'')"
  unfolding resolve_def by (rule follow_missing) simp_all

lemma keeps_utimes: "keeps_links (utimes p t)"
proof -
  have "x \<in> link_targets (root w)"
    if "resolve p (root w) = Inr (q, n)" "store q (set_mtime t n) (root w) = Some r'"
      "x \<in> link_targets r'" for w q n r' x
    using links_store_copy [OF _ that(2,3)] resolve_lookup [OF that(1)] by blast
  then show ?thesis
    by (auto simp: keeps_links_def utimes_def bindE_def sys_def Let_def
        simp del: set_mtime.simps split: option.splits sum.splits)
qed

lemma keeps_materialise:
  "htype h = Some ''directory'' \<or> htype h = Some ''file'' \<Longrightarrow> keeps_links (materialise p h)"
proof -
  assume ty: "htype h = Some ''directory'' \<or> htype h = Some ''file''"
  have f: "link_targets r' \<subseteq> link_targets (root w)"
    if "htype h = Some ''file''" "mkdirp (clock w) (butlast p) (root w) = Inr r"
       "store p (entry_node (clock w) h) r = Some r'" for w r r'
    using links_store [OF that(3)] links_mkdirp [OF that(2)] that(1)
    by (auto simp: entry_node_def)
  from ty show ?thesis
    using links_mkdirp
    by (auto simp: keeps_links_def materialise_def bindE_def sys_def Let_def f
        split: option.splits sum.splits node.splits)
qed

lemma keeps_unpack_ignore: "keeps_links (unpack ignore cwd hs)"
proof (induction hs)
  case Nil
  then show ?case by (simp add: keeps_ret)
next
  case (Cons h hs)
  show ?case
  proof (cases "ignore (join cwd (hname h)) (Some h)")
    case (Inl e)
    then show ?thesis by (simp add: keeps_throw)
  next
    case (Inr b)
    show ?thesis
    proof (cases b)
      case True
      with Inr Cons show ?thesis by simp
    next
      case False
      with Inr have "htype h = Some ''directory'' \<or> htype h = Some ''file''"
        by (auto simp: ignore_def split: option.splits if_splits)
      from keeps_materialise [OF this] Cons Inr False show ?thesis
        by (simp add: keeps_bindE)
    qed
  qed
qed

lemma keeps_tarExtract: "keeps_links (tarExtract cwd ignore stream)"
  unfolding tarExtract_def
  by (intro keeps_bindE keeps_unpack_ignore) (auto simp: keeps_ret keeps_throw split: ending.splits)

lemma keeps_choose_tmp: "keeps_links (choose_tmp out)"
  unfolding choose_tmp_def
  by (intro keeps_bindE keeps_getTmp keeps_if keeps_ret)

lemma keeps_backup_existing: "keeps_links (backup_existing tmp out)"
proof -
  have "backup_existing tmp out =
    (\<lambda>w. if existsSync out w
      then catchE
             (bindE (getTmp out) (\<lambda>tmp'.
              bindE (cp out tmp') (\<lambda>_.
              catchE (rm tmp') (\<lambda>e. emit (DebugError e)))))
             (\<lambda>error.
              bindE (emit (DebugError error)) (\<lambda>_.
              catchE (rm tmp) (\<lambda>e. emit (DebugError e))))
             w
      else ret () w)"
    by (rule ext) (simp add: backup_existing_def)
  then show ?thesis
    by (simp only:)
      (intro keeps_if keeps_catchE keeps_bindE keeps_getTmp keeps_cp keeps_rm keeps_emit keeps_ret)
qed

lemma keeps_commit: "keeps_links (commit tmp base out)"
  unfolding commit_def touch_def
  by (intro keeps_bindE keeps_catchE keeps_backup_existing keeps_emit keeps_rename keeps_rm
      keeps_now keeps_utimes)

lemma keeps_extract: "keeps_links (Extractor_extract stream base out)"
  unfolding Extractor_extract_def
  by (intro keeps_bindE keeps_catchE keeps_choose_tmp keeps_emit keeps_tarExtract keeps_commit
      keeps_rm keeps_throw)

section \<open>The extractor\<close>

lemma unpack_unsupported:
  "h \<in> set hs \<Longrightarrow> ignore nm (Some h) = Inl e \<Longrightarrow> \<exists>e'. fst (unpack ignore cwd hs w) = Inl e'"
proof (induction hs arbitrary: w)
  case Nil
  then show ?case by simp
next
  case (Cons a hs)
  have same: "ignore x (Some y) = ignore nm (Some y)" for x y
    by (simp add: ignore_def)
  show ?case
  proof (cases "a = h")
    case True
    with Cons.prems same [of "join cwd (hname h)" h] show ?thesis
      by (simp add: throw_def)
  next
    case False
    with Cons.prems have mem: "h \<in> set hs" by simp
    show ?thesis
    proof (cases "ignore (join cwd (hname a)) (Some a)")
      case (Inl e1)
      then show ?thesis by (simp add: throw_def)
    next
      case (Inr b)
      show ?thesis
      proof (cases b)
        case True
        with Inr Cons.IH [OF mem Cons.prems(2)] show ?thesis by simp
      next
        case False
        obtain r w' where m: "materialise (components cwd @ components (hname a)) a w = (r, w')"
          by force
        with Inr False Cons.IH [OF mem Cons.prems(2), of w'] show ?thesis
          by (cases r) (simp_all add: bindE_def)
      qed
    qed
  qed
qed

lemma tarExtract_unsupported:
  "h \<in> set (entries stream) \<Longrightarrow> ignore nm (Some h) = Inl e \<Longrightarrow>
     \<exists>e'. fst (tarExtract cwd ignore stream w) = Inl e'"
  using unpack_unsupported [of h "entries stream" nm e cwd w]
  by (auto simp: tarExtract_def bindE_def split: prod.splits sum.splits)

text \<open>
  When the promise of the unpacking is never settled, neither is \<^verbatim>\<open>extract\<close>: its
  \<^verbatim>\<open>catch\<close> clause does not run, and the state is as the unpacking left it.
\<close>

lemma extract_unsettled:
  assumes "choose_tmp out w = (Inr tmp, w1)"
    and "tarExtract tmp ignore stream (snd (emit (Debug (''extracting to '' @ tmp)) w1))
         = (Inl (Unsettled e), w2)"
  shows "Extractor_extract stream base out w = (Inl (Unsettled e), w2)"
  using assms by (simp add: Extractor_extract_def bindE_def catchE_def emit_def)

text \<open>
  C1. The stream of the archive breaks after the first entry. \<^verbatim>\<open>pipe\<close> does not hand the
  error to the writer, the promise that \<^verbatim>\<open>extract\<close> awaits is never settled, and so
  \<^verbatim>\<open>extract\<close> neither rejects with the error nor removes the staging directory: it is
  still there, with what was unpacked, and the last call into the file system is the
  writing of that entry.
\<close>

theorem extract_stream_error_leaves_staging:
  "fst (Extractor_extract ex_broken_archive [] ''/data/client/2.0.0''
          (ex_state ex_installed no_faults)) = Inl (Unsettled (Error ''aborted''))
   \<and> lookup (components ''/data/client/2.0.0.partial.00000'')
        (root (snd (Extractor_extract ex_broken_archive [] ''/data/client/2.0.0''
                      (ex_state ex_installed no_faults))))
      = Some (Dir 4000000000 [(''bin'', Dir 4000000000 [])])
   \<and> trace (snd (Extractor_extract ex_broken_archive [] ''/data/client/2.0.0''
                    (ex_state ex_installed no_faults)))
      = [Debug ''extracting to /data/client/2.0.0.partial.00000'', FsCall (Untar ''bin'')]"
  by code_simp

text \<open>
  The backup step is best effort: when the removal of the backup copy fails, the error is
  logged and the call goes on.
\<close>

lemma backup_failure_is_logged:
  "fst (Extractor_extract ex_tool_archive ''tool'' ''/out'' (ex_state ex_file_tree third_fails)) = Inr ()
   \<and> DebugError (ErrnoError ''EBUSY'')
       \<in> set (trace (snd (Extractor_extract ex_tool_archive ''tool'' ''/out''
                             (ex_state ex_file_tree third_fails))))
   \<and> lookup [''out''] (root (ex_state ex_file_tree third_fails)) = Some (File 5 ''old'')
   \<and> lookup [''out''] (root (snd (Extractor_extract ex_tool_archive ''tool'' ''/out''
                                     (ex_state ex_file_tree third_fails))))
      = Some (File 4000000000 ''new'')"
  by code_simp

lemma lookup_remove_below: "p \<noteq> [] \<Longrightarrow> lookup (p @ q) (remove p n) = None"
proof (induction p arbitrary: n)
  case Nil
  then show ?case by simp
next
  case (Cons c cs)
  then show ?case
    by (cases n; cases "cs = []") (auto simp: update_conv' delete_conv' split: option.splits)
qed

lemma backup_of_directory:
  assumes dir: "lookup (components out) (root w) = Some (Dir t es)"
    and nf: "\<forall>n. faults w n = None"
  shows "fst (backup_existing tmp out w) = Inr ()
         \<and> root (snd (backup_existing tmp out w)) = remove (components tmp) (root w)
         \<and> faults (snd (backup_existing tmp out w)) = faults w"
  using assms resolve_direct [OF dir]
  by (auto simp: backup_existing_def existsSync_def catchE_def bindE_def getTmp_def cp_def rm_def
      sys_def emit_def Let_def split: option.splits)

text \<open>
  Over a destination that is a directory, and with a file system that fails for no reason
  of its own, an archive that unpacks is still not installed: the copy of the backup step
  refuses the directory, its handler removes the staging directory, and the rename finds
  nothing to move.
\<close>

lemma extract_over_directory_rejects:
  assumes tmp: "choose_tmp out w = (Inr tmp, w1)"
    and un: "tarExtract tmp ignore stream (snd (emit (Debug (''extracting to '' @ tmp)) w1)) = (Inr (), w2)"
    and sep: "separate (components out) (components tmp)"
    and dir: "lookup (components out) (root w) = Some (Dir t es)"
    and below: "prefix (components tmp) (components (join tmp base))"
    and nf: "\<forall>n. faults w n = None"
  shows "fst (Extractor_extract stream base out w) = Inl (ErrnoError ''ENOENT'')
         \<and> lookup (components out) (root (snd (Extractor_extract stream base out w)))
            = Some (Dir t es)"
proof -
  let ?w1' = "snd (emit (Debug (''extracting to '' @ tmp)) w1)"
  from sep have ne: "components tmp \<noteq> []" by (auto simp: separate_def)
  have f1: "faults w1 = faults w" "root w1 = root w"
    using tmp faults_choose_tmp [of out w] root_choose_tmp [of out w] by simp_all
  have f2: "faults w2 = faults w"
    using un faults_tarExtract [of tmp ignore stream ?w1'] f1 by (simp add: emit_def)
  have d2: "lookup (components out) (root w2) = Some (Dir t es)"
    using un lookup_tarExtract_separate [OF sep, of ignore stream ?w1'] f1 dir
    by (simp add: root_emit)
  from f2 nf have nf2: "\<forall>n. faults w2 n = None" by simp
  obtain rb w3 where b: "backup_existing tmp out w2 = (rb, w3)" by force
  with backup_of_directory [OF d2 nf2, of tmp]
  have b3: "rb = Inr ()" "root w3 = remove (components tmp) (root w2)" "faults w3 = faults w2"
    by simp_all
  from below obtain q where q: "components (join tmp base) = components tmp @ q"
    by (auto simp: prefix_def)
  have gone: "lookup (components (join tmp base)) (root w3) = None"
    unfolding q b3(2) by (rule lookup_remove_below [OF ne])
  let ?w4 = "snd (emit (Debug (''moving '' @ join tmp base @ '' to '' @ out)) w3)"
  have c: "commit tmp base out w2
           = (Inl (ErrnoError ''ENOENT''), ?w4\<lparr>calls := calls ?w4 + 1,
                 trace := trace ?w4 @ [FsCall (Rename (join tmp base) out)]\<rparr>)"
    using b b3 gone nf2
    by (simp add: commit_def bindE_def emit_def rename_def sys_def Let_def rename_tree_def)
  let ?w5 = "?w4\<lparr>calls := calls ?w4 + 1, trace := trace ?w4 @ [FsCall (Rename (join tmp base) out)]\<rparr>"
  let ?c = "catchE (rm tmp) (\<lambda>e. emit (EmitWarning e)) ?w5"
  have nf5: "\<forall>n e. faults ?w5 n = Some e \<longrightarrow> settled e"
    using nf2 b3(3) by (simp add: emit_def)
  have ex: "Extractor_extract stream base out w = (Inl (ErrnoError ''ENOENT''), snd ?c)"
    using tmp un c cleanup_result [OF ne nf5]
    by (cases ?c) (simp add: Extractor_extract_def bindE_def catchE_def emit_def throw_def)
  have "lookup (components out) (root (snd ?c)) = lookup (components out) (root ?w5)"
    by (rule lookup_cleanup_separate [OF sep])
  also have "\<dots> = lookup (components out) (root w3)"
    by (simp add: emit_def)
  also have "\<dots> = lookup (components out) (root w2)"
    unfolding b3(2) by (rule lookup_remove_separate [OF sep])
  finally show ?thesis
    using ex d2 by simp
qed

text \<open>
  C4. The run of a forced reinstall of a version that is installed: the archive unpacks,
  the copy of the backup step refuses the directory, the handler of that failure removes
  the staging directory (the \<^verbatim>\<open>tmp\<close> in scope there), the rename finds nothing to move,
  and \<^verbatim>\<open>extract\<close> rejects with the tree as it was.
\<close>

theorem extract_over_directory_fails:
  "fst (Extractor_extract ex_archive [] ''/data/client/1.5.0'' (ex_state ex_installed no_faults))
     = Inl (ErrnoError ''ENOENT'')
   \<and> trace (snd (Extractor_extract ex_archive [] ''/data/client/1.5.0''
                    (ex_state ex_installed no_faults)))
      = [Debug ''extracting to /data/client/1.5.0.partial.00000'',
         FsCall (Untar ''bin''), FsCall (Untar ''bin/xata''),
         FsCall (Cp ''/data/client/1.5.0'' ''/data/client/1.5.0.partial.10000''),
         DebugError (ErrnoError ''ERR_FS_EISDIR''),
         FsCall (Rm ''/data/client/1.5.0.partial.00000''),
         Debug ''moving /data/client/1.5.0.partial.00000 to /data/client/1.5.0'',
         FsCall (Rename ''/data/client/1.5.0.partial.00000'' ''/data/client/1.5.0''),
         FsCall (Rm ''/data/client/1.5.0.partial.00000'')]
   \<and> root (snd (Extractor_extract ex_archive [] ''/data/client/1.5.0''
                   (ex_state ex_installed no_faults))) = ex_installed"
  by code_simp

text \<open>
  The filter, case by case: directory and file entries pass, symbolic links are left out,
  and on any other type, and on a header without one, it throws an error whose message is
  the type.
\<close>

lemma ignore_cases:
  "(htype h = Some ''directory'' \<or> htype h = Some ''file'' \<longrightarrow> ignore nm (Some h) = Inr False)
   \<and> (htype h = Some ''symlink'' \<longrightarrow> ignore nm (Some h) = Inr True)
   \<and> (htype h \<notin> {Some ''directory'', Some ''file'', Some ''symlink''} \<longrightarrow>
        ignore nm (Some h) = Inl (Error (case htype h of None \<Rightarrow> [] | Some t \<Rightarrow> t)))"
  by (auto simp: ignore_def split: option.splits)

text \<open>
  No link of the archive is written: after \<^verbatim>\<open>extract\<close>, whatever its outcome, every link
  of the tree points where a link of the tree pointed before.
\<close>

lemma extract_writes_no_link:
  "link_targets (root (snd (Extractor_extract stream base out w))) \<subseteq> link_targets (root w)"
  using keeps_extract [of stream base out] by (simp add: keeps_links_def)

text \<open>
  Where the filter throws, the unpacking stops for good: the entries before that one are
  written, no entry after it is read, and the promise is never settled.
\<close>

lemma unpack_filter_throws:
  assumes "unpack ign cwd hs1 w = (Inr (), w')"
    and "ign (join cwd (hname h)) (Some h) = Inl e"
  shows "unpack ign cwd (hs1 @ h # hs2) w = (Inl (Unsettled e), w')"
  using assms
proof (induction hs1 arbitrary: w)
  case Nil
  then show ?case by (simp add: ret_def throw_def)
next
  case (Cons a hs1)
  show ?case
  proof (cases "ign (join cwd (hname a)) (Some a)")
    case (Inl e1)
    with Cons.prems show ?thesis by (simp add: throw_def)
  next
    case (Inr b)
    show ?thesis
    proof (cases b)
      case True
      with Inr Cons show ?thesis by simp
    next
      case False
      obtain r w1 where m: "materialise (components cwd @ components (hname a)) a w = (r, w1)"
        by force
      with Inr False Cons.prems(1) have "r = Inr ()" "unpack ign cwd hs1 w1 = (Inr (), w')"
        by (cases r; simp add: bindE_def)+
      with Inr False m Cons.IH [OF _ Cons.prems(2), of w1] show ?thesis
        by (simp add: bindE_def)
    qed
  qed
qed

lemma extract_filter_throws:
  assumes "choose_tmp out w = (Inr tmp, w1)"
    and "unpack ignore tmp hs1 (snd (emit (Debug (''extracting to '' @ tmp)) w1)) = (Inr (), w2)"
    and "htype h \<notin> {Some ''directory'', Some ''file'', Some ''symlink''}"
    and "entries stream = hs1 @ h # hs2"
  shows "Extractor_extract stream base out w
         = (Inl (Unsettled (Error (case htype h of None \<Rightarrow> [] | Some t \<Rightarrow> t))), w2)"
proof -
  from assms(3) have "ignore (join tmp (hname h)) (Some h)
      = Inl (Error (case htype h of None \<Rightarrow> [] | Some t \<Rightarrow> t))"
    using ignore_cases [of h "join tmp (hname h)"] by simp
  from unpack_filter_throws [OF assms(2) this, of hs2] assms(4)
  have "tarExtract tmp ignore stream (snd (emit (Debug (''extracting to '' @ tmp)) w1))
        = (Inl (Unsettled (Error (case htype h of None \<Rightarrow> [] | Some t \<Rightarrow> t))), w2)"
    by (simp add: tarExtract_def bindE_def)
  with assms(1) show ?thesis
    by (rule extract_unsettled)
qed

text \<open>
  C5. An archive with a directory, a named pipe and a file. The filter throws at the pipe,
  inside the writer's handler of the entry, where nothing catches it: \<^verbatim>\<open>extract\<close> is
  never settled, the file after the pipe is not written, and the staging directory stays,
  with the directory unpacked before the pipe in it. Nothing is removed: the writing of
  that directory is the only call into the file system.
\<close>

theorem extract_unsupported_entry_leaves_staging:
  "ignore ''bin/pipe'' (Some (ex_entry ''bin/pipe'' ''fifo'' [])) = Inl (Error ''fifo'')
   \<and> fst (Extractor_extract ex_fifo_archive [] ''/data/client/2.0.0''
            (ex_state ex_installed no_faults)) = Inl (Unsettled (Error ''fifo''))
   \<and> lookup (components ''/data/client/2.0.0.partial.00000'')
        (root (snd (Extractor_extract ex_fifo_archive [] ''/data/client/2.0.0''
                      (ex_state ex_installed no_faults))))
      = Some (Dir 4000000000 [(''bin'', Dir 4000000000 [])])
   \<and> trace (snd (Extractor_extract ex_fifo_archive [] ''/data/client/2.0.0''
                    (ex_state ex_installed no_faults)))
      = [Debug ''extracting to /data/client/2.0.0.partial.00000'', FsCall (Untar ''bin'')]"
  by code_simp

section \<open>The debounce gate\<close>

lemma lastrun_mtime_after_wait:
  "lastrun_mtime c (snd (wait ms (snd (emit ev w)))) = lastrun_mtime c w"
  by (simp add: lastrun_mtime_def wait_def emit_def)

lemma deadline_after_wait:
  "deadline c (snd (wait ms (snd (emit ev w)))) = deadline c w"
  by (simp add: deadline_def lastrun_mtime_def wait_def emit_def)

lemma mtime_facts:
  assumes "(x, w1) = mtime (join c ''lastrun'') w"
  shows "root w1 = root w" "clock w1 = clock w" "faults w1 = faults w"
    "trace w1 = trace w @ [FsCall (Stat (join c ''lastrun''))]"
    "x = Inr m0 \<Longrightarrow> m0 = lastrun_mtime c w"
    "existsSync (join c ''lastrun'') w \<and> faults w (calls w) = None \<longrightarrow> (\<exists>m. x = Inr m)"
    "calls w1 = calls w + 1"
    "localTZA w1 = localTZA w"
  using assms
  by (auto simp: mtime_def stat_def bindE_def sys_def lastrun_mtime_def Let_def existsSync_def
      split: option.splits sum.splits)

lemma debounce_step:
  "debounce c w =
     (if (case fst (mtime (join c ''lastrun'') w) of Inl e \<Rightarrow> False
          | Inr m0 \<Rightarrow> clock (snd (mtime (join c ''lastrun'') w))
                        < setHours_plus (localTZA (snd (mtime (join c ''lastrun'') w))) m0 1)
      then debounce c
             (snd (wait 60000
               (snd (emit (UxLog (''waiting until ''
                        @ show_date (setHours_plus (localTZA (snd (mtime (join c ''lastrun'') w)))
                                       (projr (fst (mtime (join c ''lastrun'') w))) 1)
                        @ '' to update'')) (snd (mtime (join c ''lastrun'') w))))))
      else (case fst (mtime (join c ''lastrun'') w) of
              Inl e \<Rightarrow> (Inl e, snd (mtime (join c ''lastrun'') w))
            | Inr m0 \<Rightarrow> emit (UxLog ''time to update'') (snd (mtime (join c ''lastrun'') w))))"
  by (subst debounce.simps) (auto split: prod.splits sum.splits)

text \<open>
  What the gate does, in every time zone. The instant it waits for is what
  \<^verbatim>\<open>setHours(getHours() + 1)\<close> makes of the marker's time, \<open>deadline\<close>. The gate returns
  after some number \<open>k\<close> of waits of one minute each, and of nothing else that moves the
  clock. Every one of these waits was taken at a moment when that instant was still ahead,
  so it goes on at the first reading that finds the instant passed; and when it lets the
  caller proceed the instant has passed. It fails only when reading the marker fails. The
  marker is read again in every round; the file system stays as it is while the caller
  sleeps.
\<close>

lemma debounce_waits_for_deadline:
  assumes "debounce c w = (r, w')"
  shows "\<exists>k. clock w' = clock w + 60000 * int k
           \<and> filter is_wait (trace w') = filter is_wait (trace w) @ replicate k (Wait 60000)
           \<and> (\<forall>j<k. clock w + 60000 * int j < deadline c w)
           \<and> (r = Inr () \<longrightarrow> deadline c w \<le> clock w')
           \<and> (existsSync (join c ''lastrun'') w \<and> (\<forall>n. faults w n = None) \<longrightarrow> r = Inr ())
           \<and> root w' = root w"
  using assms
proof (induction c w arbitrary: r w' rule: debounce.induct)
  case (1 c w)
  obtain x w1 where m: "(x, w1) = mtime (join c ''lastrun'') w"
    by (metis surj_pair)
  note f = mtime_facts [OF m]
  show ?case
  proof (cases x)
    case (Inl e)
    with m [symmetric] "1.prems" have "r = Inl e" "w' = w1"
      by (simp_all add: debounce.simps [of c w])
    with f(1,2,4) f(6) Inl show ?thesis
      by (intro exI [of _ 0]) (auto simp: is_wait_def)
  next
    case (Inr m0)
    with f(5) have m0: "m0 = lastrun_mtime c w" by simp
    have d: "setHours_plus (localTZA w1) m0 1 = deadline c w"
      using m0 f(8) by (simp add: deadline_def)
    show ?thesis
    proof (cases "clock w1 < setHours_plus (localTZA w1) m0 1")
      case False
      with m [symmetric] Inr "1.prems" have "r = Inr ()" "w' = snd (emit (UxLog ''time to update'') w1)"
        by (simp_all add: debounce.simps [of c w] emit_def)
      with f(1,2,4) d False show ?thesis
        by (intro exI [of _ 0]) (auto simp: is_wait_def emit_def)
    next
      case True
      let ?w3 = "snd (wait (60 * 1000)
                  (snd (emit (UxLog (''waiting until '' @ show_date (setHours_plus (localTZA w1) m0 1)
                                      @ '' to update'')) w1)))"
      from m [symmetric] Inr True "1.prems" have rec: "debounce c ?w3 = (r, w')"
        by (simp add: debounce.simps [of c w])
      have "\<exists>k. clock w' = clock ?w3 + 60000 * int k
        \<and> filter is_wait (trace w') = filter is_wait (trace ?w3) @ replicate k (Wait 60000)
        \<and> (\<forall>j<k. clock ?w3 + 60000 * int j < deadline c ?w3)
        \<and> (r = Inr () \<longrightarrow> deadline c ?w3 \<le> clock w')
        \<and> (existsSync (join c ''lastrun'') ?w3 \<and> (\<forall>n. faults ?w3 n = None) \<longrightarrow> r = Inr ())
        \<and> root w' = root ?w3"
        by (rule "1.IH" [OF m Inr refl True rec])
      then obtain k where k: "clock w' = clock ?w3 + 60000 * int k"
        "filter is_wait (trace w') = filter is_wait (trace ?w3) @ replicate k (Wait 60000)"
        "\<forall>j<k. clock ?w3 + 60000 * int j < deadline c ?w3"
        "r = Inr () \<longrightarrow> deadline c ?w3 \<le> clock w'"
        "existsSync (join c ''lastrun'') ?w3 \<and> (\<forall>n. faults ?w3 n = None) \<longrightarrow> r = Inr ()"
        "root w' = root ?w3"
        by blast
      have w3: "clock ?w3 = clock w + 60000" "root ?w3 = root w" "faults ?w3 = faults w"
        "deadline c ?w3 = deadline c w"
        "existsSync (join c ''lastrun'') ?w3 = existsSync (join c ''lastrun'') w"
        "filter is_wait (trace ?w3) = filter is_wait (trace w) @ [Wait 60000]"
        using f(1,2,3,4,8)
        by (simp_all add: wait_def emit_def lastrun_mtime_def deadline_def is_wait_def existsSync_def)
      have first: "clock w < deadline c w"
        using True d f(2) by simp
      have all: "\<forall>j<Suc k. clock w + 60000 * int j < deadline c w"
      proof (intro allI impI)
        fix j assume "j < Suc k"
        show "clock w + 60000 * int j < deadline c w"
        proof (cases j)
          case 0
          with first show ?thesis by simp
        next
          case (Suc j')
          with \<open>j < Suc k\<close> k(3) w3(1,4) show ?thesis by auto
        qed
      qed
      show ?thesis
        using k(1,2,4,5,6) w3 all
        by (intro exI [of _ "Suc k"]) (simp add: replicate_append_same)
    qed
  qed
qed

text \<open>Where the offset of the zone never changes, that instant is one hour after the marker's time.\<close>

lemma deadline_fixed_offset:
  "\<forall>t b. localTZA w t b = off \<Longrightarrow> deadline c w = lastrun_mtime c w + 3600000"
  by (simp add: deadline_def setHours_plus_def Let_def)

text \<open>
  C9. The marker was touched 35 minutes before summer time ended, and it is now 58
  minutes past the marker's time plus one hour. An hour added to the fields of the
  marker's local time is a local time after the change, two hours after the marker's
  time: the gate does not let the caller proceed, it sleeps twice.
\<close>

theorem debounce_waits_past_the_hour:
  "lastrun_mtime ''/cache'' (ex_state (ex_cache 3992900000) no_faults) + 3600000
     < clock (ex_state (ex_cache 3992900000) no_faults)
   \<and> fst (debounce ''/cache''
            ((ex_state (ex_cache 3992900000) no_faults)\<lparr>localTZA := ex_autumn 3995000000\<rparr>)) = Inr ()
   \<and> filter is_wait
        (trace (snd (debounce ''/cache''
           ((ex_state (ex_cache 3992900000) no_faults)\<lparr>localTZA := ex_autumn 3995000000\<rparr>))))
      = [Wait 60000, Wait 60000]
   \<and> clock (snd (debounce ''/cache''
           ((ex_state (ex_cache 3992900000) no_faults)\<lparr>localTZA := ex_autumn 3995000000\<rparr>)))
      = 4000120000"
proof -
  have j: "join ''/cache'' ''lastrun'' = ''/cache/lastrun''"
    by code_simp
  have r: "resolve ''/cache/lastrun'' (ex_cache 3992900000)
           = Inr ([''cache'', ''lastrun''], File 3992900000 [])"
    by code_simp
  show ?thesis
    by (simp add: debounce_step mtime_def stat_def bindE_def sys_def Let_def ex_state_def
        no_faults_def j r wait_def emit_def lastrun_mtime_def setHours_plus_def ex_autumn_def
        is_wait_def)
qed

section \<open>The store, the channel and the marker\<close>

text \<open>
  C2. \<^verbatim>\<open>tidy\<close> hands the version to \<^verbatim>\<open>isNotSpecial\<close> as the path and the path as the
  version, so the test is whether the version is called \<^verbatim>\<open>bin\<close> or \<^verbatim>\<open>current\<close> or is
  the entry's full path: every entry passes it. Here \<^verbatim>\<open>bin\<close>, \<^verbatim>\<open>current\<close> and the active
  version \<^verbatim>\<open>1.0.0\<close>, all older than 42 days, are removed.
\<close>

theorem tidy_removes_protected_entries:
  "fst (tidy (Updater ex_config) (ex_state ex_stale no_faults)) = Inr ()
   \<and> version (config (ex_state ex_stale no_faults)) = ''1.0.0''
   \<and> root (snd (tidy (Updater ex_config) (ex_state ex_stale no_faults)))
      = Dir 0 [(''data'', Dir 0 [(''client'', Dir 0 [(''2.0.0'', Dir 3999999999 [])])])]"
  by code_simp

text \<open>In general: but for a version of such a name, the names of the entries play no part.\<close>

lemma tidy_targets_all_old:
  "basename ver \<notin> {''bin'', ''current''} \<Longrightarrow> \<forall>f \<in> set files. path f \<noteq> basename ver \<Longrightarrow>
     tidy_targets tza ver t files = map path (filter (\<lambda>f. isOld tza (stat_mtime f) t) files)"
  unfolding tidy_targets_def isNotSpecial_def
  by (rule arg_cong [where f = "map path"], rule filter_cong) auto

text \<open>What is persisted: the channel file without the space around it, or \<^verbatim>\<open>stable\<close>.\<close>

lemma persisted_channel_reads:
  "lookup (components (join (dataDir cfg) ''channel'')) (root w) = None \<Longrightarrow>
     persisted_channel cfg w = (Inr ''stable'', w)"
  "lookup (components (join (dataDir cfg) ''channel'')) (root w) = Some (File t c) \<Longrightarrow>
     faults w (calls w) = None \<Longrightarrow>
     fst (persisted_channel cfg w) = Inr (trim c)"
proof -
  show "persisted_channel cfg w = (Inr ''stable'', w)"
    if "lookup (components (join (dataDir cfg) ''channel'')) (root w) = None"
    using resolve_missing [OF that]
    by (simp add: persisted_channel_def existsSync_def ret_def)
  show "fst (persisted_channel cfg w) = Inr (trim c)"
    if "lookup (components (join (dataDir cfg) ''channel'')) (root w) = Some (File t c)"
      "faults w (calls w) = None"
    using resolve_direct [OF that(1)] that(2)
    by (simp add: persisted_channel_def existsSync_def ret_def readFile_def bindE_def sys_def Let_def)
qed

text \<open>
  C8. The persisted channel is what the channel file holds, without the space around it,
  and \<^verbatim>\<open>stable\<close> when there is no such file. The first dist-tag of the registry whose
  version is the target is translated: \<^verbatim>\<open>latest\<close> to \<^verbatim>\<open>stable\<close>, \<^verbatim>\<open>latest-rc\<close> to
  \<^verbatim>\<open>stable-rc\<close>, any other tag is the result as it is; when no tag has that version, the
  persisted channel is translated in its place. When the request fails, the result is the
  persisted channel and nothing is raised.
\<close>

theorem determineChannel_translates_tags:
  assumes "(lookup (components (join (dataDir cfg) ''channel'')) (root w) = None
              \<and> channel = ''stable'')
           \<or> (\<exists>t c. lookup (components (join (dataDir cfg) ''channel'')) (root w) = Some (File t c)
                \<and> faults w (calls w) = None \<and> channel = trim c)"
  shows "(http_dist_tags env (dist_tags_url cfg) = Inr tags
            \<and> find (\<lambda>v. map_of tags v = Some ver) (map fst tags) = Some tag \<longrightarrow>
          fst (determineChannel env cfg (Some ver) w)
            = Inr (if tag = ''latest'' then ''stable''
                   else if tag = ''latest-rc'' then ''stable-rc'' else tag))
       \<and> (http_dist_tags env (dist_tags_url cfg) = Inr tags
            \<and> find (\<lambda>v. map_of tags v = v') (map fst tags) = None \<longrightarrow>
          fst (determineChannel env cfg v' w)
            = Inr (if channel = ''latest'' then ''stable''
                   else if channel = ''latest-rc'' then ''stable-rc'' else channel))
       \<and> (http_dist_tags env (dist_tags_url cfg) = Inl e \<and> settled e \<longrightarrow>
          fst (determineChannel env cfg v w) = Inr channel)"
proof -
  from assms persisted_channel_reads [of cfg w]
  have "fst (persisted_channel cfg w) = Inr channel"
    by auto
  then obtain w1 where "persisted_channel cfg w = (Inr channel, w1)"
    by (metis prod.collapse)
  then show ?thesis
    by (auto simp: determineChannel_def bindE_def catchE_def emit_def ret_def throw_def Let_def)
qed

theorem determineChannel_translates_tags_witness:
  "fst (determineChannel ex_env ex_config (Some ''2.0.0'') (ex_state ex_installed no_faults)) = Inr ''stable''
   \<and> fst (determineChannel ex_env ex_config (Some ''2.1.0'') (ex_state ex_installed no_faults)) = Inr ''stable-rc''
   \<and> fst (determineChannel ex_env ex_config (Some ''3.0.0'') (ex_state ex_installed no_faults)) = Inr ''next''
   \<and> fst (determineChannel ex_offline ex_config (Some ''2.0.0'') (ex_state ex_installed no_faults)) = Inr ''stable''
   \<and> fst (determineChannel ex_env ex_config (Some ''9.9.9'') (ex_state ex_on_beta no_faults)) = Inr ''beta''
   \<and> fst (determineChannel ex_offline ex_config (Some ''2.0.0'') (ex_state ex_on_beta no_faults)) = Inr ''beta''"
proof -
  let ?w = "ex_state ex_installed no_faults"
  let ?b = "ex_state ex_on_beta no_faults"
  let ?tags = "[(''latest'', ''2.0.0''), (''latest-rc'', ''2.1.0''), (''next'', ''3.0.0'')]"
  have "lookup (components (join (dataDir ex_config) ''channel'')) (root ?w) = None"
    by code_simp
  then have p: "(lookup (components (join (dataDir ex_config) ''channel'')) (root ?w) = None
              \<and> ''stable'' = ''stable'')
           \<or> (\<exists>t c. lookup (components (join (dataDir ex_config) ''channel'')) (root ?w) = Some (File t c)
                \<and> faults ?w (calls ?w) = None \<and> ''stable'' = trim c)"
    by simp
  have "lookup (components (join (dataDir ex_config) ''channel'')) (root ?b)
        = Some (File 0 (''beta'' @ [CHR 0x0A]))"
    by code_simp
  moreover have "faults ?b (calls ?b) = None"
    by (simp add: ex_state_def no_faults_def)
  moreover have "''beta'' = trim (''beta'' @ [CHR 0x0A])"
    by code_simp
  ultimately have q: "(lookup (components (join (dataDir ex_config) ''channel'')) (root ?b) = None
              \<and> ''beta'' = ''stable'')
           \<or> (\<exists>t c. lookup (components (join (dataDir ex_config) ''channel'')) (root ?b) = Some (File t c)
                \<and> faults ?b (calls ?b) = None \<and> ''beta'' = trim c)"
    by blast
  have t: "http_dist_tags ex_env (dist_tags_url ex_config) = Inr ?tags"
    by (simp add: ex_env_def)
  have o: "http_dist_tags ex_offline (dist_tags_url ex_config) = Inl (Error ''ECONNREFUSED'')"
    by (simp add: ex_offline_def ex_env_def)
  have f: "find (\<lambda>v. map_of ?tags v = Some ''2.0.0'') (map fst ?tags) = Some ''latest''"
    "find (\<lambda>v. map_of ?tags v = Some ''2.1.0'') (map fst ?tags) = Some ''latest-rc''"
    "find (\<lambda>v. map_of ?tags v = Some ''3.0.0'') (map fst ?tags) = Some ''next''"
    "find (\<lambda>v. map_of ?tags v = Some ''9.9.9'') (map fst ?tags) = None"
    by simp_all
  show ?thesis
    using determineChannel_translates_tags [OF p, of ex_env ?tags "''2.0.0''" "''latest''"]
      determineChannel_translates_tags [OF p, of ex_env ?tags "''2.1.0''" "''latest-rc''"]
      determineChannel_translates_tags [OF p, of ex_env ?tags "''3.0.0''" "''next''"]
      determineChannel_translates_tags [OF p, of ex_offline _ _ _ _ "Error ''ECONNREFUSED''" "Some ''2.0.0''"]
      determineChannel_translates_tags [OF q, of ex_env ?tags _ _ "Some ''9.9.9''"]
      determineChannel_translates_tags [OF q, of ex_offline _ _ _ _ "Error ''ECONNREFUSED''" "Some ''2.0.0''"]
      t o f
    by simp
qed

text \<open>
  C10. With \<^verbatim>\<open>autoUpdate\<close> set and no marker in the cache directory, \<^verbatim>\<open>runUpdate\<close> rejects
  with the error of \<^verbatim>\<open>stat\<close> (\<^verbatim>\<open>ENOENT\<close>, or what the file system failed with instead).
  Nothing else has happened by then: the state differs by that one call only.
\<close>

theorem runUpdate_missing_lastrun_fails:
  assumes "opt_autoUpdate opts"
    and "lookup (components (join (cacheDir (config w)) ''lastrun'')) (root w) = None"
  shows "runUpdate env this opts w
         = (Inl (case faults w (calls w) of Some e \<Rightarrow> e | None \<Rightarrow> ErrnoError ''ENOENT''),
            w\<lparr>calls := calls w + 1,
              trace := trace w @ [FsCall (Stat (join (cacheDir (config w)) ''lastrun''))]\<rparr>)"
  using assms resolve_missing [of "join (cacheDir (config w)) ''lastrun''" "root w"]
  by (simp add: runUpdate_def runUpdate_prepare_def bindE_def Let_def
      debounce.simps [of "cacheDir (config w)" w] mtime_def stat_def sys_def
      split: option.splits)

theorem runUpdate_missing_lastrun_fails_witness:
  "fst (runUpdate ex_env (Updater ex_config) (ex_options True None)
          (ex_state ex_installed no_faults)) = Inl (ErrnoError ''ENOENT'')
   \<and> root (snd (runUpdate ex_env (Updater ex_config) (ex_options True None)
                   (ex_state ex_installed no_faults))) = ex_installed
   \<and> trace (snd (runUpdate ex_env (Updater ex_config) (ex_options True None)
                    (ex_state ex_installed no_faults))) = [FsCall (Stat ''/cache/lastrun'')]"
proof -
  let ?w = "ex_state ex_installed no_faults"
  have a: "opt_autoUpdate (ex_options True None)"
    by (simp add: ex_options_def)
  have b: "lookup (components (join (cacheDir (config ?w)) ''lastrun'')) (root ?w) = None"
    by code_simp
  have c: "join ''/cache'' ''lastrun'' = ''/cache/lastrun''"
    by code_simp
  show ?thesis
    using runUpdate_missing_lastrun_fails [OF a b, of ex_env "Updater ex_config"]
    by (simp add: ex_state_def ex_config_def no_faults_def c)
qed

section \<open>A version that the index does not list\<close>

lemma build_index_absent:
  "ver \<notin> fst ` set index \<Longrightarrow> ver \<notin> set object_prototype_names \<Longrightarrow>
     \<not> member_truthy index ver"
  by (simp add: member_truthy_def map_of_eq_None_iff [THEN iffD2])

text \<open>
  A call with a version that is not found locally (or with \<^verbatim>\<open>force\<close>), whose
  \<^verbatim>\<open>preupdate\<close> hook returns and whose index request is answered: when the index does not
  list the version, and the version is not the name of a member of \<^verbatim>\<open>Object.prototype\<close>,
  \<^verbatim>\<open>runUpdate\<close> rejects with the message that names the version and lists the keys of the
  index.
\<close>

lemma runUpdate_version_not_in_index:
  assumes prep: "runUpdate_prepare env this opts w = (Inr (Some (channel, current)), w1)"
    and ver: "opt_version opts = Some ver" "ver \<noteq> []"
    and loc: "(if (case opt_force opts of None \<Rightarrow> False | Some f \<Rightarrow> f) then ret None
               else findLocalVersion this ver) w1 = (Inr lv, w2)"
    and nolv: "\<not> truthy lv"
    and hk: "hook env ''preupdate'' channel ver = None"
    and rel: "http_releases env = Inr body"
    and absent: "ver \<notin> fst ` set (build_index body)"
    and plain: "ver \<notin> set object_prototype_names"
  shows "fst (runUpdate env this opts w)
         = Inl (Error (ver @ '' not found in index:'' @ [CHR 0x0A]
                       @ join_with '', '' (object_keys (build_index body))))"
proof -
  let ?force = "case opt_force opts of None \<Rightarrow> False | Some f \<Rightarrow> f"
  let ?msg = "Error (ver @ '' not found in index:'' @ [CHR 0x0A]
                       @ join_with '', '' (object_keys (build_index body)))"
  have idx: "fetchVersionIndex env s
             = (Inr (build_index body),
                s\<lparr>trace := trace s @ [HttpGet ''https://api.github.com/repos/xataio/client-ts/releases'']\<rparr>)"
    for s
    using rel by (simp add: fetchVersionIndex_def catchE_def bindE_def emit_def ret_def)
  have al: "\<not> alreadyOnVersion current (if truthy lv then lv else None)"
    using nolv by (simp add: alreadyOnVersion_def)
  have br: "fst (runUpdate_version env this ?force ver channel current w1) = Inl ?msg"
    using loc nolv al hk idx build_index_absent [OF absent plain]
    by (simp add: runUpdate_version_def bindE_def runHook_def emit_def ret_def throw_def)
  obtain r w3 where rv: "runUpdate_version env this ?force ver channel current w1 = (r, w3)"
    by force
  with br have r: "r = Inl ?msg" by simp
  have "runUpdate env this opts w = (Inl ?msg, w3)"
    using prep ver rv r
    by (simp add: runUpdate_def Let_def bindE_def truthy_def)
  then show ?thesis by simp
qed

lemma runUpdate_version_not_in_index_example:
  "fst (runUpdate ex_env (Updater ex_config) (ex_options False (Some ''9.9.9''))
          (ex_state ex_installed no_faults))
     = Inl (Error (''9.9.9 not found in index:'' @ [CHR 0x0A] @ ''2.0.0, 1.5.0''))"
  by code_simp

text \<open>The keys of the message are in the order of \<^verbatim>\<open>Object.keys\<close>.\<close>

lemma index_keys_in_key_order:
  "object_keys (build_index [''@xata.io/cli@2.0.0'', ''@xata.io/cli@10'', ''@xata.io/cli@9''])
     = [''9'', ''10'', ''2.0.0'']"
  by code_simp

text \<open>
  C7. The version asked for is \<^verbatim>\<open>constructor\<close>. No release of the index has that name,
  and yet \<^verbatim>\<open>index[version]\<close> is not empty: it is the member \<^verbatim>\<open>constructor\<close> that every
  object has from \<^verbatim>\<open>Object.prototype\<close>. The test of the index lets the call through,
  the archive is downloaded and installed as that version, and \<^verbatim>\<open>runUpdate\<close> returns
  without an error.
\<close>

theorem runUpdate_installs_version_not_in_index:
  "''constructor'' \<notin> fst ` set (build_index [''@xata.io/cli@2.0.0'', ''@xata.io/client@0.30.0'',
                                             ''@xata.io/cli@1.5.0''])
   \<and> http_releases ex_env = Inr [''@xata.io/cli@2.0.0'', ''@xata.io/client@0.30.0'',
                                 ''@xata.io/cli@1.5.0'']
   \<and> fst (runUpdate ex_env (Updater ex_config) (ex_options False (Some ''constructor''))
            (ex_state ex_installed no_faults)) = Inr ()
   \<and> HttpStream ''https://www.dwsamplefiles.com/?dl_id=553''
       \<in> set (trace (snd (runUpdate ex_env (Updater ex_config)
                            (ex_options False (Some ''constructor''))
                            (ex_state ex_installed no_faults))))
   \<and> lookup (components ''/data/client/constructor/bin/xata'')
        (root (snd (runUpdate ex_env (Updater ex_config)
                      (ex_options False (Some ''constructor''))
                      (ex_state ex_installed no_faults))))
      = Some (File 4000000000 ''#!run'')"
  by code_simp

section \<open>The end of a run\<close>






























section \<open>Switching to an installed version\<close>

lemma no_download_simps [simp]:
  "no_download (FsCall op)" "no_download (Debug s)" "no_download (DebugError e)"
  "no_download (EmitWarning e)" "no_download (UxLog s)" "no_download (UxDebug s)"
  "no_download (UxWarn e)" "no_download (UxWarnText s)" "no_download (ActionStart s)"
  "no_download (ActionStop s)" "no_download (HttpGet s)" "no_download (RunHook a b c)"
  "no_download (ConfigLoad s)" "no_download (Wait n)" "no_download (ConsoleLog s)"
  by (simp_all add: no_download_def)



















lemma config_sys: "sys op w = (r, w') \<Longrightarrow> config w' = config w"
  by (auto simp: sys_def Let_def split: option.splits)

lemma config_mkdir: "mkdir p w = (r, w') \<Longrightarrow> config w' = config w"
  by (auto simp: mkdir_def bindE_def sys_def Let_def split: option.splits sum.splits)

lemma config_rm: "rm p w = (r, w') \<Longrightarrow> config w' = config w"
  by (auto simp: rm_def bindE_def sys_def Let_def split: option.splits)

lemma config_ensureClientDir: "ensureClientDir p w = (r, w') \<Longrightarrow> config w' = config w"
proof -
  assume a: "ensureClientDir p w = (r, w')"
  obtain r1 w1 where m1: "mkdir p w = (r1, w1)" by force
  note c1 = config_mkdir [OF m1]
  show ?thesis
  proof (cases r1)
    case (Inr u)
    with a m1 c1 show ?thesis by (simp add: ensureClientDir_def catchE_def)
  next
    case (Inl e)
    show ?thesis
    proof (cases "code_of e = Some ''EEXIST''")
      case False
      with a m1 c1 Inl show ?thesis
        by (auto simp: ensureClientDir_def catchE_def throw_def split: if_splits)
    next
      case True
      obtain r2 w2 where m2: "rm p w1 = (r2, w2)" by force
      obtain r3 w3 where m3: "mkdir p w2 = (r3, w3)" by force
      from a m1 Inl True m2 m3 c1 config_rm [OF m2] config_mkdir [OF m3] show ?thesis
        by (cases r2) (auto simp: ensureClientDir_def catchE_def bindE_def split: if_splits)
    qed
  qed
qed













end
